theory Spec2Isabelle
  imports Main "HOL-Library.Sublist" "HOL-Library.AList"
begin

section \<open>Python strings\<close>

text \<open>
  A Python \<open>str\<close> is a sequence of Unicode code points; a code point is modelled by its
  number. \<open>ascii\<close> writes an ASCII literal.
\<close>

type_synonym pychar = nat
type_synonym pystr = "pychar list"
type_synonym path = pystr

definition ascii :: "string \<Rightarrow> pystr" where
  "ascii s = map of_char s"

definition nl :: pychar where
  "nl = 10"

definition backslash :: pychar where
  "backslash = 92"

text \<open>
  The class \<open>\s\<close> of a \<open>str\<close> pattern: the code points for which \<open>str.isspace\<close> holds
  (tab to carriage return, the separators 0x1C to 0x1F, space, 0x85, 0xA0, 0x1680,
  0x2000 to 0x200A, 0x2028, 0x2029, 0x202F, 0x205F, 0x3000). The newline is one of them.
\<close>

definition is_space :: "pychar \<Rightarrow> bool" where
  "is_space c \<longleftrightarrow>
     (9 \<le> c \<and> c \<le> 13) \<or> (28 \<le> c \<and> c \<le> 32) \<or> c = 133 \<or> c = 160 \<or> c = 5760 \<or>
     (8192 \<le> c \<and> c \<le> 8202) \<or> c = 8232 \<or> c = 8233 \<or> c = 8239 \<or> c = 8287 \<or> c = 12288"

definition digit :: "pychar \<Rightarrow> bool" where
  "digit c \<longleftrightarrow> 48 \<le> c \<and> c \<le> 57"

definition octdigit :: "pychar \<Rightarrow> bool" where
  "octdigit c \<longleftrightarrow> 48 \<le> c \<and> c \<le> 55"

definition ascii_letter :: "pychar \<Rightarrow> bool" where
  "ascii_letter c \<longleftrightarrow> (65 \<le> c \<and> c \<le> 90) \<or> (97 \<le> c \<and> c \<le> 122)"

section \<open>Values, exceptions, printed lines\<close>

text \<open>
  The values \<open>yaml.safe_load\<close> builds. A mapping keeps its keys in insertion order, as a
  Python \<open>dict\<close> does; its keys are strings, as the annotation \<open>Dict[str, Any]\<close> of the
  source has them. \<open>PyOther t n\<close> is any other object (a float, bytes, a date, a set):
  the program only tests its truth value \<open>t\<close>, and it has neither \<open>get\<close> nor \<open>items\<close>.
\<close>

datatype pyval =
    PyNone
  | PyBool bool
  | PyInt int
  | PyStr pystr
  | PyList "pyval list"
  | PyDict "(pystr \<times> pyval) list"
  | PyOther bool nat

text \<open>
  The exceptions, all subclasses of \<open>Exception\<close>. \<open>TemplateError\<close> is what \<open>re.sub\<close>
  raises for a replacement string it cannot compile (\<open>re.error\<close>, or \<open>IndexError\<close> for an
  unknown group name); \<open>OtherError\<close> is anything the file system or the YAML library
  raises besides \<open>yaml.YAMLError\<close>.
\<close>

datatype exn =
    YAMLError pystr
  | AttributeError
  | TypeError
  | TemplateError
  | OtherError pystr

text \<open>One constructor for each \<open>print\<close> of the source.\<close>

datatype event =
    Processing path
  | WarnYAML pystr
  | WarnNoOutput path
  | WarnNoFileName path
  | Created path
  | NoTemplates path
  | Found nat
  | ErrorProcessing path exn

datatype outcome = Returned | Raised exn

text \<open>Truth value of an object (\<open>not x\<close>, \<open>x or y\<close>).\<close>

fun truthy :: "pyval \<Rightarrow> bool" where
  "truthy PyNone = False"
| "truthy (PyBool b) = b"
| "truthy (PyInt n) = (n \<noteq> 0)"
| "truthy (PyStr s) = (s \<noteq> [])"
| "truthy (PyList vs) = (vs \<noteq> [])"
| "truthy (PyDict kvs) = (kvs \<noteq> [])"
| "truthy (PyOther t n) = t"

text \<open>\<open>x.get(k, d)\<close> and \<open>x.items()\<close>: only a dict has these attributes.\<close>

fun py_get :: "pyval \<Rightarrow> pystr \<Rightarrow> pyval \<Rightarrow> exn + pyval" where
  "py_get (PyDict kvs) k d = Inr (case map_of kvs k of Some v \<Rightarrow> v | None \<Rightarrow> d)"
| "py_get _ k d = Inl AttributeError"

fun py_items :: "pyval \<Rightarrow> exn + (pystr \<times> pyval) list" where
  "py_items (PyDict kvs) = Inr kvs"
| "py_items _ = Inl AttributeError"

text \<open>
  \<open>str(value)\<close>: a string is its own string form; the form of any other object is
  the builtin's, taken as the parameter \<open>repr\<close>.
\<close>

fun py_str :: "(pyval \<Rightarrow> pystr) \<Rightarrow> pyval \<Rightarrow> pystr" where
  "py_str repr (PyStr s) = s"
| "py_str repr v = repr v"

section \<open>The environment: YAML library and file system\<close>

text \<open>
  The operations of PyYAML and \<open>pathlib\<close> the program calls, over a file system of
  type \<open>'fs\<close>. An operation that can raise returns the exception on the left. Of
  \<open>yaml.dump\<close> the environment holds the layout only: \<open>dump_key\<close> is the text written
  for a key in front of its value (indentation, the key, the colon and the blank or line
  break behind it), \<open>dump_leaf\<close> the text of a value that is not a mapping with entries;
  both get the flag \<open>allow_unicode\<close> and the nesting depth. The order in which the
  entries of a mapping are written is \<open>yaml_dump\<close> below.
\<close>

record 'fs env =
  safe_load :: "pystr \<Rightarrow> exn + pyval"
  dump_key :: "bool \<Rightarrow> nat \<Rightarrow> pystr \<Rightarrow> pyval \<Rightarrow> pystr"
  dump_leaf :: "bool \<Rightarrow> nat \<Rightarrow> pyval \<Rightarrow> exn + pystr"
  py_repr :: "pyval \<Rightarrow> pystr"
  read_text :: "'fs \<Rightarrow> path \<Rightarrow> exn + pystr"
  joinpath :: "path \<Rightarrow> pystr \<Rightarrow> path"
  parent :: "path \<Rightarrow> path"
  mkdir :: "'fs \<Rightarrow> path \<Rightarrow> exn option \<times> 'fs"
  write_text :: "'fs \<Rightarrow> path \<Rightarrow> pystr \<Rightarrow> exn option \<times> 'fs"
  glob_md :: "'fs \<Rightarrow> path \<Rightarrow> exn + path list"

record processor =
  template_dir :: path
  output_base_dir :: path

record 'fs world =
  files :: 'fs
  printed :: "event list"

definition emit :: "event \<Rightarrow> 'fs world \<Rightarrow> 'fs world" where
  "emit e w = w\<lparr>printed := printed w @ [e]\<rparr>"

section \<open>yaml.dump\<close>

text \<open>
  \<open>yaml.dump(data, allow_unicode=..., sort_keys=...)\<close> in block style. PyYAML's
  \<open>represent_mapping\<close> takes the items of a dict in the order of the dict, sorts them
  when \<open>sort_keys\<close> is set (the keys are strings, compared code point by code point),
  and the entries are written one after the other in that order, each as its key
  followed by its value; a nested mapping is written the same way one level deeper.
  The first entry that cannot be written raises. Anchors for shared objects are not
  modelled: a value here has no identity.
\<close>

fun str_le :: "pystr \<Rightarrow> pystr \<Rightarrow> bool" where
  "str_le [] ys = True"
| "str_le (x # xs) [] = False"
| "str_le (x # xs) (y # ys) = (x < y \<or> (x = y \<and> str_le xs ys))"

fun insert_item :: "pystr \<times> 'a \<Rightarrow> (pystr \<times> 'a) list \<Rightarrow> (pystr \<times> 'a) list" where
  "insert_item kv [] = [kv]"
| "insert_item kv (x # xs) =
     (if str_le (fst kv) (fst x) then kv # x # xs else x # insert_item kv xs)"

definition order_items :: "bool \<Rightarrow> (pystr \<times> 'a) list \<Rightarrow> (pystr \<times> 'a) list" where
  "order_items sort_keys items = (if sort_keys then foldr insert_item items [] else items)"

fun collect_texts :: "(exn + pystr) list \<Rightarrow> exn + pystr" where
  "collect_texts [] = Inr []"
| "collect_texts (Inl e # rs) = Inl e"
| "collect_texts (Inr t # rs) =
     (case collect_texts rs of Inl e \<Rightarrow> Inl e | Inr ts \<Rightarrow> Inr (t @ ts))"

fun yaml_dump ::
  "(bool \<Rightarrow> nat \<Rightarrow> pystr \<Rightarrow> pyval \<Rightarrow> pystr) \<Rightarrow> (bool \<Rightarrow> nat \<Rightarrow> pyval \<Rightarrow> exn + pystr) \<Rightarrow>
     bool \<Rightarrow> bool \<Rightarrow> nat \<Rightarrow> pyval \<Rightarrow> exn + pystr" where
  "yaml_dump key leaf allow_unicode sort_keys d (PyDict kvs) =
     (if kvs = [] then leaf allow_unicode d (PyDict [])
      else collect_texts (map snd (order_items sort_keys
             (map (\<lambda>kv. (fst kv,
                     case yaml_dump key leaf allow_unicode sort_keys (Suc d) (snd kv) of
                       Inl e \<Rightarrow> Inl e
                     | Inr t \<Rightarrow> Inr (key allow_unicode d (fst kv) (snd kv) @ t)))
                kvs))))"
| "yaml_dump key leaf allow_unicode sort_keys d v = leaf allow_unicode d v"

section \<open>parse_frontmatter\<close>

text \<open>
  \<open>re.match(r'^---\s*\n(.*?)\n---\s*\n(.*)$', content, re.DOTALL)\<close> as the backtracking
  search it is. \<open>ws_nl_then k\<close> matches \<open>\s*\n\<close> and then the rest of the pattern \<open>k\<close>:
  the greedy star tries the longest run of whitespace first and gives characters back
  one at a time.
\<close>

fun ws_nl_then :: "(pystr \<Rightarrow> 'a option) \<Rightarrow> pystr \<Rightarrow> 'a option" where
  "ws_nl_then k [] = None"
| "ws_nl_then k (c # cs) =
     (if is_space c then
        (case ws_nl_then k cs of
           Some r \<Rightarrow> Some r
         | None \<Rightarrow> if c = nl then k cs else None)
      else None)"

text \<open>
  \<open>\n---\s*\n(.*)$\<close>: with \<open>DOTALL\<close> the last group takes all that is left, and \<open>$\<close>
  holds at the end. The result is group 2.
\<close>

definition close_delim :: "pystr \<Rightarrow> pystr option" where
  "close_delim xs =
     (if prefix (nl # ascii ''---'') xs then ws_nl_then Some (drop 4 xs) else None)"

text \<open>
  \<open>(.*?)\<close> followed by the closing delimiter: the lazy star tries the shortest group 1
  first. \<open>g\<close> is what group 1 holds so far.
\<close>

fun group1_then_close :: "pystr \<Rightarrow> pystr \<Rightarrow> (pystr \<times> pystr) option" where
  "group1_then_close g [] = None"
| "group1_then_close g (c # cs) =
     (case close_delim (c # cs) of
        Some body \<Rightarrow> Some (g, body)
      | None \<Rightarrow> group1_then_close (g @ [c]) cs)"

definition match_frontmatter :: "pystr \<Rightarrow> (pystr \<times> pystr) option" where
  "match_frontmatter content =
     (if prefix (ascii ''---'') content
      then ws_nl_then (group1_then_close []) (drop 3 content)
      else None)"

text \<open>
  The result is the lines printed and the pair returned, or the exception that
  escapes: only \<open>yaml.YAMLError\<close> is caught.
\<close>

definition parse_frontmatter ::
  "(pystr \<Rightarrow> exn + pyval) \<Rightarrow> pystr \<Rightarrow> event list \<times> (exn + pyval \<times> pystr)" where
  "parse_frontmatter load content =
     (case match_frontmatter content of
        None \<Rightarrow> ([], Inr (PyDict [], content))
      | Some (frontmatter_str, body) \<Rightarrow>
          (case load frontmatter_str of
             Inr frontmatter \<Rightarrow>
               ([], Inr (if truthy frontmatter then frontmatter else PyDict [], body))
           | Inl (YAMLError msg) \<Rightarrow> ([WarnYAML msg], Inr (PyDict [], content))
           | Inl e \<Rightarrow> ([], Inl e)))"

section \<open>replace_variables\<close>

definition placeholder :: "pystr \<Rightarrow> pystr" where
  "placeholder key = ascii ''{{'' @ key @ ascii ''}}''"

text \<open>
  The pattern \<open>r'\{\{' + re.escape(key) + r'\}\}'\<close> matches the text \<open>placeholder key\<close>
  and nothing else. \<open>re.sub\<close> scans from the left, replaces a match and goes on behind
  it; the matches do not overlap.
\<close>

fun sub_all :: "pystr \<Rightarrow> pystr \<Rightarrow> pystr \<Rightarrow> pystr" where
  "sub_all pat rep [] = []"
| "sub_all pat rep (c # cs) =
     (if prefix pat (c # cs) then rep @ sub_all pat rep (drop (length pat - 1) cs)
      else c # sub_all pat rep cs)"

text \<open>
  A replacement string that holds a backslash is a template (\<open>re\<close>'s \<open>parse_template\<close>,
  Python 3.12, for a pattern without groups). \<open>template_escape m cs\<close> reads one escape,
  \<open>cs\<close> being the text behind the backslash and \<open>m\<close> the matched text: it returns what
  the escape stands for and how many characters of \<open>cs\<close> it takes.
\<close>

definition escape_char :: "pychar \<Rightarrow> pychar option" where
  "escape_char d =
     (if d = 97 then Some 7 else if d = 98 then Some 8 else if d = 102 then Some 12
      else if d = 110 then Some 10 else if d = 114 then Some 13 else if d = 116 then Some 9
      else if d = 118 then Some 11 else if d = 92 then Some 92 else None)"

definition octal :: "pychar list \<Rightarrow> nat" where
  "octal ds = foldl (\<lambda>n d. 8 * n + (d - 48)) 0 ds"

definition template_escape :: "pystr \<Rightarrow> pystr \<Rightarrow> exn + (pystr \<times> nat)" where
  "template_escape m cs =
     (case cs of
        [] \<Rightarrow> Inl TemplateError
      | d # ds \<Rightarrow>
          if d = 103 then
            (case ds of
               [] \<Rightarrow> Inl TemplateError
             | l # es \<Rightarrow>
                 let name = takeWhile (\<lambda>c. c \<noteq> 62) es in
                 if l = 60 \<and> length name < length es \<and> name \<noteq> [] \<and> list_all (\<lambda>c. c = 48) name
                 then Inr (m, length name + 3)
                 else Inl TemplateError)
          else if d = 48 then
            (case ds of
               e1 # e2 # _ \<Rightarrow>
                 if octdigit e1 \<and> octdigit e2 then Inr ([octal [e1, e2]], 3)
                 else if octdigit e1 then Inr ([octal [e1]], 2)
                 else Inr ([0], 1)
             | [e1] \<Rightarrow> if octdigit e1 then Inr ([octal [e1]], 2) else Inr ([0], 1)
             | [] \<Rightarrow> Inr ([0], 1))
          else if digit d then
            (case ds of
               e1 # e2 # _ \<Rightarrow>
                 if octdigit d \<and> octdigit e1 \<and> octdigit e2 \<and> octal [d, e1, e2] \<le> 255
                 then Inr ([octal [d, e1, e2]], 3)
                 else Inl TemplateError
             | _ \<Rightarrow> Inl TemplateError)
          else
            (case escape_char d of
               Some c \<Rightarrow> Inr ([c], 1)
             | None \<Rightarrow> if ascii_letter d then Inl TemplateError else Inr ([backslash, d], 1)))"

fun expand_template :: "pystr \<Rightarrow> pystr \<Rightarrow> exn + pystr" where
  "expand_template m [] = Inr []"
| "expand_template m (c # cs) =
     (if c = backslash then
        (case template_escape m cs of
           Inl e \<Rightarrow> Inl e
         | Inr (lit, n) \<Rightarrow>
             (case expand_template m (drop n cs) of
                Inl e \<Rightarrow> Inl e
              | Inr r \<Rightarrow> Inr (lit @ r)))
      else
        (case expand_template m cs of
           Inl e \<Rightarrow> Inl e
         | Inr r \<Rightarrow> Inr (c # r)))"

text \<open>
  \<open>re.sub(pattern, repl, text)\<close>: \<open>repl\<close> is compiled before the scan, so a bad template
  raises whether or not the pattern occurs; without a backslash \<open>repl\<close> is used as it is.
\<close>

definition re_sub :: "pystr \<Rightarrow> pystr \<Rightarrow> pystr \<Rightarrow> exn + pystr" where
  "re_sub key repl text =
     (if backslash \<notin> set repl then Inr (sub_all (placeholder key) repl text)
      else
        (case expand_template (placeholder key) repl of
           Inl e \<Rightarrow> Inl e
         | Inr r \<Rightarrow> Inr (sub_all (placeholder key) r text)))"

text \<open>The loop over \<open>variables.items()\<close>, in the order of the dict.\<close>

fun replace_variables ::
  "(pyval \<Rightarrow> pystr) \<Rightarrow> pystr \<Rightarrow> (pystr \<times> pyval) list \<Rightarrow> exn + pystr" where
  "replace_variables repr content [] = Inr content"
| "replace_variables repr content ((key, val) # variables) =
     (case re_sub key (py_str repr val) content of
        Inl e \<Rightarrow> Inl e
      | Inr result \<Rightarrow> replace_variables repr result variables)"

text \<open>
  Two notions the statements about \<open>replace_variables\<close> use: a key without a brace
  character, and \<open>sep.join(parts)\<close>.
\<close>

definition brace_free :: "pystr \<Rightarrow> bool" where
  "brace_free k \<longleftrightarrow> 123 \<notin> set k \<and> 125 \<notin> set k"

fun str_join :: "pystr \<Rightarrow> pystr list \<Rightarrow> pystr" where
  "str_join sep [] = []"
| "str_join sep [p] = p"
| "str_join sep (p # q # ps) = p @ sep @ str_join sep (q # ps)"

section \<open>process_template\<close>

definition output_key :: pystr where
  "output_key = ascii ''output''"

definition metadata_key :: pystr where
  "metadata_key = ascii ''metadata''"

definition file_name_key :: pystr where
  "file_name_key = ascii ''file_name''"

text \<open>
  \<open>variables[key] = value\<close> is \<open>AList.update\<close>: a key the dict has keeps its place
  and takes the new value, a new key goes to the end.
\<close>

definition add_metadata ::
  "(pystr \<times> pyval) list \<Rightarrow> (pystr \<times> pyval) list \<Rightarrow> (pystr \<times> pyval) list" where
  "add_metadata items variables = fold (\<lambda>(key, val) vs. AList.update key val vs) items variables"

definition add_output ::
  "(pystr \<times> pyval) list \<Rightarrow> (pystr \<times> pyval) list \<Rightarrow> (pystr \<times> pyval) list" where
  "add_output items variables =
     fold (\<lambda>(key, val) vs. if key \<noteq> file_name_key then AList.update key val vs else vs)
       items variables"

text \<open>
  The lines of \<open>process_template\<close> that build \<open>variables\<close>: first the items of
  \<open>frontmatter.get('metadata', {})\<close>, then those of \<open>output_info\<close> but \<open>file_name\<close>.
\<close>

definition collect_variables :: "pyval \<Rightarrow> pyval \<Rightarrow> exn + (pystr \<times> pyval) list" where
  "collect_variables frontmatter output_info =
     (case py_get frontmatter metadata_key (PyDict []) of
        Inl e \<Rightarrow> Inl e
      | Inr metadata \<Rightarrow>
          (case py_items metadata of
             Inl e \<Rightarrow> Inl e
           | Inr mitems \<Rightarrow>
               (case py_items output_info of
                  Inl e \<Rightarrow> Inl e
                | Inr oitems \<Rightarrow> Inr (add_output oitems (add_metadata mitems [])))))"

text \<open>\<open>self.output_base_dir / output_filename\<close>: a \<open>Path\<close> joins with a string only.\<close>

fun path_join :: "(path \<Rightarrow> pystr \<Rightarrow> path) \<Rightarrow> path \<Rightarrow> pyval \<Rightarrow> exn + path" where
  "path_join join base (PyStr s) = Inr (join base s)"
| "path_join join base _ = Inl TypeError"

definition full_content :: "pystr \<Rightarrow> pystr \<Rightarrow> pystr" where
  "full_content header processed_body =
     ascii ''---'' @ [nl] @ header @ ascii ''---'' @ [nl] @ processed_body"

text \<open>
  What is done once the variables are there: substitute, make the directories,
  serialise the header, write, report.
\<close>

definition write_output ::
  "'fs env \<Rightarrow> processor \<Rightarrow> pyval \<Rightarrow> pystr \<Rightarrow> pyval \<Rightarrow> (pystr \<times> pyval) list \<Rightarrow>
     'fs world \<Rightarrow> outcome \<times> 'fs world" where
  "write_output E P frontmatter body output_filename variables w =
     (case replace_variables (py_repr E) body variables of
        Inl e \<Rightarrow> (Raised e, w)
      | Inr processed_body \<Rightarrow>
          (case path_join (joinpath E) (output_base_dir P) output_filename of
             Inl e \<Rightarrow> (Raised e, w)
           | Inr output_path \<Rightarrow>
               (case mkdir E (files w) (parent E output_path) of
                  (Some e, fs1) \<Rightarrow> (Raised e, w\<lparr>files := fs1\<rparr>)
                | (None, fs1) \<Rightarrow>
                    (case yaml_dump (dump_key E) (dump_leaf E) True False 0 frontmatter of
                       Inl e \<Rightarrow> (Raised e, w\<lparr>files := fs1\<rparr>)
                     | Inr header \<Rightarrow>
                         (case write_text E fs1 output_path (full_content header processed_body) of
                            (Some e, fs2) \<Rightarrow> (Raised e, w\<lparr>files := fs2\<rparr>)
                          | (None, fs2) \<Rightarrow>
                              (Returned, emit (Created output_path) (w\<lparr>files := fs2\<rparr>)))))))"

definition process_parsed ::
  "'fs env \<Rightarrow> processor \<Rightarrow> path \<Rightarrow> pyval \<Rightarrow> pystr \<Rightarrow> 'fs world \<Rightarrow> outcome \<times> 'fs world" where
  "process_parsed E P template_file frontmatter body w =
     (case py_get frontmatter output_key (PyDict []) of
        Inl e \<Rightarrow> (Raised e, w)
      | Inr output_info \<Rightarrow>
          if \<not> truthy output_info then (Returned, emit (WarnNoOutput template_file) w)
          else
            (case py_get output_info file_name_key PyNone of
               Inl e \<Rightarrow> (Raised e, w)
             | Inr output_filename \<Rightarrow>
                 if \<not> truthy output_filename
                 then (Returned, emit (WarnNoFileName template_file) w)
                 else
                   (case collect_variables frontmatter output_info of
                      Inl e \<Rightarrow> (Raised e, w)
                    | Inr variables \<Rightarrow>
                        write_output E P frontmatter body output_filename variables w)))"

definition process_template ::
  "'fs env \<Rightarrow> processor \<Rightarrow> path \<Rightarrow> 'fs world \<Rightarrow> outcome \<times> 'fs world" where
  "process_template E P template_file w0 =
     (let w1 = emit (Processing template_file) w0 in
      case read_text E (files w1) template_file of
        Inl e \<Rightarrow> (Raised e, w1)
      | Inr content \<Rightarrow>
          (case parse_frontmatter (safe_load E) content of
             (lines, Inl e) \<Rightarrow> (Raised e, w1\<lparr>printed := printed w1 @ lines\<rparr>)
           | (lines, Inr (frontmatter, body)) \<Rightarrow>
               process_parsed E P template_file frontmatter body
                 (w1\<lparr>printed := printed w1 @ lines\<rparr>)))"

section \<open>process_all\<close>

text \<open>One turn of the loop: \<open>try: process_template(f) except Exception as e: print(...)\<close>.\<close>

definition process_one :: "'fs env \<Rightarrow> processor \<Rightarrow> path \<Rightarrow> 'fs world \<Rightarrow> 'fs world" where
  "process_one E P template_file w =
     (case process_template E P template_file w of
        (Returned, w') \<Rightarrow> w'
      | (Raised e, w') \<Rightarrow> emit (ErrorProcessing template_file e) w')"

fun process_files :: "'fs env \<Rightarrow> processor \<Rightarrow> path list \<Rightarrow> 'fs world \<Rightarrow> 'fs world" where
  "process_files E P [] w = w"
| "process_files E P (f # fs) w = process_files E P fs (process_one E P f w)"

definition process_all :: "'fs env \<Rightarrow> processor \<Rightarrow> 'fs world \<Rightarrow> outcome \<times> 'fs world" where
  "process_all E P w =
     (case glob_md E (files w) (template_dir P) of
        Inl e \<Rightarrow> (Raised e, w)
      | Inr template_files \<Rightarrow>
          if template_files = [] then (Returned, emit (NoTemplates (template_dir P)) w)
          else (Returned,
                process_files E P template_files (emit (Found (length template_files)) w)))"

section \<open>A small environment for the examples\<close>

text \<open>
  The examples run the program in a toy environment: a file system that is a list
  of files with their contents, and a loader that knows a handful of headers and
  rejects every other text, as PyYAML would reject \<open>a: [\<close>. It only serves to
  evaluate the definitions at concrete inputs.
\<close>

definition demo_header :: pyval where
  "demo_header =
     PyDict [(output_key, PyDict [(file_name_key, PyStr (ascii ''a_out.md'')),
                                  (ascii ''name'', PyStr (ascii ''Bob''))]),
             (metadata_key, PyDict [(ascii ''name'', PyStr (ascii ''Alice''))])]"

definition demo_yaml :: "(pystr \<times> pyval) list" where
  "demo_yaml =
     [([], PyNone),
      (ascii ''hello'', PyStr (ascii ''hello'')),
      (ascii ''{output: {file_name: a_out.md, name: Bob}, metadata: {name: Alice}}'',
         demo_header),
      (ascii ''metadata: {name: Alice}'',
         PyDict [(metadata_key, PyDict [(ascii ''name'', PyStr (ascii ''Alice''))])]),
      (ascii ''output: {name: Bob}'',
         PyDict [(output_key, PyDict [(ascii ''name'', PyStr (ascii ''Bob''))])]),
      (ascii ''output: out.md'',
         PyDict [(output_key, PyStr (ascii ''out.md''))])]"

definition demo_load :: "pystr \<Rightarrow> exn + pyval" where
  "demo_load s =
     (case map_of demo_yaml s of
        Some v \<Rightarrow> Inr v
      | None \<Rightarrow> Inl (YAMLError (ascii ''cannot parse'')))"

definition demo_read :: "(path \<times> pystr) list \<Rightarrow> path \<Rightarrow> exn + pystr" where
  "demo_read fs p =
     (case map_of fs p of
        Some c \<Rightarrow> Inr c
      | None \<Rightarrow> Inl (OtherError (ascii ''FileNotFoundError'')))"

definition demo_env :: "(path \<times> pystr) list env" where
  "demo_env =
     \<lparr> safe_load = demo_load,
       dump_key = (\<lambda>allow_unicode d k v.
          concat (replicate d (ascii ''  '')) @ k @ ascii '':'' @ (case v of PyDict (x # xs) \<Rightarrow> [nl] | _ \<Rightarrow> [])),
       dump_leaf = (\<lambda>allow_unicode d v.
          case v of PyStr s \<Rightarrow> Inr (32 # s @ [nl]) | _ \<Rightarrow> Inr (ascii '' ?'' @ [nl])),
       py_repr = (\<lambda>v. ascii ''?''),
       read_text = demo_read,
       joinpath = (\<lambda>base s. base @ ascii ''/'' @ s),
       parent = (\<lambda>p. p),
       mkdir = (\<lambda>fs p. (None, fs)),
       write_text = (\<lambda>fs p c. (None, AList.update p c fs)),
       glob_md = (\<lambda>fs d. Inr (filter (prefix d) (map fst fs))) \<rparr>"

definition demo_processor :: processor where
  "demo_processor = \<lparr> template_dir = ascii ''t'', output_base_dir = ascii ''o'' \<rparr>"

definition doc :: "pystr \<Rightarrow> pystr \<Rightarrow> pystr" where
  "doc header body = ascii ''---'' @ [nl] @ header @ [nl] @ ascii ''---'' @ [nl] @ body"

definition demo_files :: "(path \<times> pystr) list" where
  "demo_files =
     [(ascii ''t/a.md'', doc (ascii ''hello'') (ascii ''body'')),
      (ascii ''t/b.md'',
         doc (ascii ''{output: {file_name: a_out.md, name: Bob}, metadata: {name: Alice}}'')
           (ascii ''Hello, {{name}}!''))]"


section \<open>What the header pattern matches\<close>

lemma ws_nl_then_SomeD:
  "ws_nl_then k xs = Some r \<Longrightarrow>
     \<exists>w rest. xs = w @ nl # rest \<and> list_all is_space w \<and> k rest = Some r"
proof (induction xs)
  case Nil
  then show ?case by simp
next
  case (Cons c cs)
  from Cons.prems have sp: "is_space c" by (simp split: if_splits)
  show ?case
  proof (cases "ws_nl_then k cs")
    case (Some r')
    with Cons.prems sp have "r' = r" by simp
    with Some Cons.IH obtain w rest where
      "cs = w @ nl # rest" "list_all is_space w" "k rest = Some r" by blast
    then have "c # cs = (c # w) @ nl # rest \<and> list_all is_space (c # w) \<and> k rest = Some r"
      using sp by simp
    then show ?thesis by blast
  next
    case None
    with Cons.prems sp have "c = nl" "k cs = Some r" by (simp_all split: if_splits)
    then have "c # cs = [] @ nl # cs \<and> list_all is_space [] \<and> k cs = Some r" by simp
    then show ?thesis by blast
  qed
qed

lemma is_space_nl: "is_space nl"
  by (simp add: is_space_def nl_def)

lemma ws_nl_then_complete:
  "list_all is_space w \<Longrightarrow> k rest \<noteq> None \<Longrightarrow> ws_nl_then k (w @ nl # rest) \<noteq> None"
proof (induction w)
  case Nil
  then show ?case by (cases "ws_nl_then k rest") (auto simp: is_space_nl)
next
  case (Cons c w)
  then show ?case by (cases "ws_nl_then k (w @ nl # rest)") auto
qed

lemma close_delim_SomeD:
  "close_delim xs = Some b \<Longrightarrow>
     \<exists>w. xs = nl # ascii ''---'' @ w @ nl # b \<and> list_all is_space w"
proof -
  assume a: "close_delim xs = Some b"
  then have p: "prefix (nl # ascii ''---'') xs" and m: "ws_nl_then Some (drop 4 xs) = Some b"
    by (auto simp: close_delim_def split: if_splits)
  from p obtain t where t: "xs = (nl # ascii ''---'') @ t" by (auto simp: prefix_def)
  then have "drop 4 xs = t" by (simp add: ascii_def)
  with m ws_nl_then_SomeD[of Some t b] obtain w rest where
    "t = w @ nl # rest" "list_all is_space w" "Some rest = Some b" by auto
  with t show ?thesis by auto
qed

lemma close_delim_complete:
  "list_all is_space w \<Longrightarrow> close_delim (nl # ascii ''---'' @ w @ nl # b) \<noteq> None"
  using ws_nl_then_complete[of w Some b]
  by (simp add: close_delim_def ascii_def)

lemma group1_then_close_SomeD:
  "group1_then_close g xs = Some (h, b) \<Longrightarrow>
     \<exists>m w. xs = m @ nl # ascii ''---'' @ w @ nl # b \<and> list_all is_space w \<and> h = g @ m"
proof (induction xs arbitrary: g)
  case Nil
  then show ?case by simp
next
  case (Cons c cs)
  show ?case
  proof (cases "close_delim (c # cs)")
    case (Some body)
    with Cons.prems have "h = g" "body = b" by simp_all
    with Some close_delim_SomeD[of "c # cs" b] obtain w where
      "c # cs = [] @ nl # ascii ''---'' @ w @ nl # b" "list_all is_space w" by auto
    with \<open>h = g\<close> show ?thesis by blast
  next
    case None
    with Cons.prems have "group1_then_close (g @ [c]) cs = Some (h, b)" by simp
    from Cons.IH[OF this] obtain m w where
      "cs = m @ nl # ascii ''---'' @ w @ nl # b" "list_all is_space w" "h = (g @ [c]) @ m" by blast
    then have "c # cs = (c # m) @ nl # ascii ''---'' @ w @ nl # b \<and> list_all is_space w \<and> h = g @ (c # m)"
      by simp
    then show ?thesis by blast
  qed
qed

lemma group1_then_close_complete:
  "list_all is_space w \<Longrightarrow> group1_then_close g (m @ nl # ascii ''---'' @ w @ nl # b) \<noteq> None"
proof (induction m arbitrary: g)
  case Nil
  with close_delim_complete[of w b] show ?case by (auto simp: ascii_def)
next
  case (Cons c m)
  then show ?case by (cases "close_delim (c # m @ nl # ascii ''---'' @ w @ nl # b)") auto
qed

lemma match_frontmatter_SomeD:
  assumes "match_frontmatter content = Some (h, b)"
  shows "\<exists>w1 w2. content = ascii ''---'' @ w1 @ nl # h @ nl # ascii ''---'' @ w2 @ nl # b
            \<and> list_all is_space w1 \<and> list_all is_space w2"
proof -
  from assms have p: "prefix (ascii ''---'') content"
    and m: "ws_nl_then (group1_then_close []) (drop 3 content) = Some (h, b)"
    by (auto simp: match_frontmatter_def split: if_splits)
  from p obtain t where t: "content = ascii ''---'' @ t" by (auto simp: prefix_def)
  then have "drop 3 content = t" by (simp add: ascii_def)
  with m ws_nl_then_SomeD[of "group1_then_close []" t "(h, b)"] obtain w1 rest where
    w1: "t = w1 @ nl # rest" "list_all is_space w1" "group1_then_close [] rest = Some (h, b)" by auto
  from group1_then_close_SomeD[OF w1(3)] obtain m' w2 where
    "rest = m' @ nl # ascii ''---'' @ w2 @ nl # b" "list_all is_space w2" "h = [] @ m'" by blast
  with t w1 show ?thesis by auto
qed

lemma match_frontmatter_complete:
  assumes "list_all is_space w1" "list_all is_space w2"
  shows "match_frontmatter (ascii ''---'' @ w1 @ nl # h @ nl # ascii ''---'' @ w2 @ nl # b) \<noteq> None"
proof -
  have "group1_then_close [] (h @ nl # ascii ''---'' @ w2 @ nl # b) \<noteq> None"
    using group1_then_close_complete[OF assms(2)] .
  with assms(1)
  have "ws_nl_then (group1_then_close []) (w1 @ nl # h @ nl # ascii ''---'' @ w2 @ nl # b) \<noteq> None"
    by (rule ws_nl_then_complete)
  then show ?thesis
    by (simp add: match_frontmatter_def ascii_def)
qed

lemma match_frontmatter_None_iff:
  "match_frontmatter content = None \<longleftrightarrow>
     \<not> (\<exists>w1 h w2 b. content = ascii ''---'' @ w1 @ nl # h @ nl # ascii ''---'' @ w2 @ nl # b
            \<and> list_all is_space w1 \<and> list_all is_space w2)"
proof
  assume "match_frontmatter content = None"
  then show "\<not> (\<exists>w1 h w2 b. content = ascii ''---'' @ w1 @ nl # h @ nl # ascii ''---'' @ w2 @ nl # b
            \<and> list_all is_space w1 \<and> list_all is_space w2)"
    using match_frontmatter_complete by blast
next
  assume n: "\<not> (\<exists>w1 h w2 b. content = ascii ''---'' @ w1 @ nl # h @ nl # ascii ''---'' @ w2 @ nl # b
            \<and> list_all is_space w1 \<and> list_all is_space w2)"
  show "match_frontmatter content = None"
  proof (cases "match_frontmatter content")
    case None then show ?thesis .
  next
    case (Some hb)
    obtain h b where "hb = (h, b)" by (cases hb)
    with Some match_frontmatter_SomeD[of content h b] n show ?thesis by blast
  qed
qed

section \<open>Claims about parse_frontmatter\<close>

text \<open>
  C4. When the pattern \<open>---\<close>, whitespace, newline, header, newline, \<open>---\<close>, whitespace,
  newline does not match at the start of the content, \<open>parse_frontmatter\<close> returns the
  empty mapping and the whole content as body, and prints nothing. When the pattern
  matches and \<open>safe_load\<close> raises a \<open>YAMLError\<close> for the header text, it prints the
  warning and returns the empty mapping with the whole content, delimiters included.
\<close>

theorem parse_frontmatter_no_header_or_bad_yaml:
  "((\<nexists>w1 h w2 b. content = ascii ''---'' @ w1 @ nl # h @ nl # ascii ''---'' @ w2 @ nl # b
        \<and> list_all is_space w1 \<and> list_all is_space w2)
      \<longrightarrow> parse_frontmatter load content = ([], Inr (PyDict [], content)))
   \<and> (match_frontmatter content = Some (h', b') \<and> load h' = Inl (YAMLError msg)
      \<longrightarrow> parse_frontmatter load content = ([WarnYAML msg], Inr (PyDict [], content)))"
proof (intro conjI impI)
  assume "\<nexists>w1 h w2 b. content = ascii ''---'' @ w1 @ nl # h @ nl # ascii ''---'' @ w2 @ nl # b
        \<and> list_all is_space w1 \<and> list_all is_space w2"
  then have "match_frontmatter content = None"
    using match_frontmatter_None_iff[of content] by blast
  then show "parse_frontmatter load content = ([], Inr (PyDict [], content))"
    by (simp add: parse_frontmatter_def)
next
  assume "match_frontmatter content = Some (h', b') \<and> load h' = Inl (YAMLError msg)"
  then show "parse_frontmatter load content = ([WarnYAML msg], Inr (PyDict [], content))"
    by (simp add: parse_frontmatter_def)
qed

theorem parse_frontmatter_no_header_or_bad_yaml_witness:
  "parse_frontmatter demo_load (ascii ''# title'') = ([], Inr (PyDict [], ascii ''# title''))
   \<and> match_frontmatter (doc (ascii ''a: ['') (ascii ''body'')) = Some (ascii ''a: ['', ascii ''body'')
   \<and> demo_load (ascii ''a: ['') = Inl (YAMLError (ascii ''cannot parse''))
   \<and> parse_frontmatter demo_load (doc (ascii ''a: ['') (ascii ''body''))
       = ([WarnYAML (ascii ''cannot parse'')], Inr (PyDict [], doc (ascii ''a: ['') (ascii ''body'')))"
proof -
  have n: "\<nexists>w1 h w2 b. ascii ''# title'' = ascii ''---'' @ w1 @ nl # h @ nl # ascii ''---'' @ w2 @ nl # b
        \<and> list_all is_space w1 \<and> list_all is_space w2"
    by (simp add: ascii_def)
  have m: "match_frontmatter (doc (ascii ''a: ['') (ascii ''body'')) = Some (ascii ''a: ['', ascii ''body'')"
    by (simp add: doc_def match_frontmatter_def close_delim_def ascii_def nl_def is_space_def)
  have l: "demo_load (ascii ''a: ['') = Inl (YAMLError (ascii ''cannot parse''))"
    by (simp add: demo_load_def demo_yaml_def ascii_def)
  from n m l
    parse_frontmatter_no_header_or_bad_yaml[of "ascii ''# title''" demo_load]
    parse_frontmatter_no_header_or_bad_yaml[of "doc (ascii ''a: ['') (ascii ''body'')" demo_load
      "ascii ''a: [''" "ascii ''body''" "ascii ''cannot parse''"]
  show ?thesis by blast
qed

text \<open>
  C10. When the header text loads as \<open>None\<close> (what PyYAML gives for an empty text or
  for one of blanks and comments), \<open>parse_frontmatter\<close> returns the empty mapping with
  the body behind the closing delimiter; and \<open>None\<close> is never the header it returns.
\<close>

theorem parse_frontmatter_null_header:
  "(match_frontmatter content = Some (h, b) \<and> load h = Inr PyNone
      \<longrightarrow> parse_frontmatter load content = ([], Inr (PyDict [], b)))
   \<and> (parse_frontmatter load content = (lines, Inr (frontmatter, body)) \<longrightarrow> frontmatter \<noteq> PyNone)"
  by (auto simp: parse_frontmatter_def split: option.splits sum.splits exn.splits if_splits)

theorem parse_frontmatter_null_header_witness:
  "match_frontmatter (doc [] (ascii ''body'')) = Some ([], ascii ''body'')
   \<and> demo_load [] = Inr PyNone
   \<and> parse_frontmatter demo_load (doc [] (ascii ''body'')) = ([], Inr (PyDict [], ascii ''body''))
   \<and> PyDict [] \<noteq> PyNone"
proof -
  have m: "match_frontmatter (doc [] (ascii ''body'')) = Some ([], ascii ''body'')"
    by (simp add: doc_def match_frontmatter_def close_delim_def ascii_def nl_def is_space_def)
  have l: "demo_load [] = Inr PyNone"
    by (simp add: demo_load_def demo_yaml_def)
  from m l parse_frontmatter_null_header[of "doc [] (ascii ''body'')" "[]" "ascii ''body''" demo_load
      "[]" "PyDict []" "ascii ''body''"]
  show ?thesis by simp
qed

section \<open>Claims about process_template and process_all\<close>

lemma py_get_not_dict: "\<forall>kvs. v \<noteq> PyDict kvs \<Longrightarrow> py_get v k d = Inl AttributeError"
  by (cases v) simp_all

lemma files_emit [simp]: "files (emit e w) = files w"
  by (simp add: emit_def)

lemma printed_emit [simp]: "printed (emit e w) = printed w @ [e]"
  by (simp add: emit_def)

text \<open>
  C8. When the header text loads as a truthy value that is not a mapping (a string, a
  list, a number), \<open>parse_frontmatter\<close> returns that value as the header;
  \<open>frontmatter.get\<close> in \<open>process_template\<close> then raises \<open>AttributeError\<close>, and the loop
  of \<open>process_all\<close> prints the error for the file: the lines printed are the
  processing line and the error line, with no warning about a missing output.
\<close>

theorem non_mapping_header_raises:
  assumes "read_text E (files w) f = Inr content"
    and "match_frontmatter content = Some (h, b)"
    and "safe_load E h = Inr v"
    and "truthy v"
    and "\<forall>kvs. v \<noteq> PyDict kvs"
  shows "parse_frontmatter (safe_load E) content = ([], Inr (v, b))
    \<and> process_template E P f w = (Raised AttributeError, emit (Processing f) w)
    \<and> process_one E P f w = emit (ErrorProcessing f AttributeError) (emit (Processing f) w)
    \<and> printed (process_one E P f w) = printed w @ [Processing f, ErrorProcessing f AttributeError]"
proof -
  have p: "parse_frontmatter (safe_load E) content = ([], Inr (v, b))"
    using assms(2-4) by (simp add: parse_frontmatter_def)
  have g: "py_get v output_key (PyDict []) = Inl AttributeError"
    using assms(5) by (rule py_get_not_dict)
  have t: "process_template E P f w = (Raised AttributeError, emit (Processing f) w)"
    using assms(1) p g by (simp add: process_template_def process_parsed_def Let_def emit_def)
  then have o: "process_one E P f w = emit (ErrorProcessing f AttributeError) (emit (Processing f) w)"
    by (simp add: process_one_def)
  from p t o show ?thesis by simp
qed

theorem non_mapping_header_raises_witness:
  "read_text demo_env [(ascii ''t/a.md'', doc (ascii ''hello'') (ascii ''body''))] (ascii ''t/a.md'')
      = Inr (doc (ascii ''hello'') (ascii ''body''))
   \<and> match_frontmatter (doc (ascii ''hello'') (ascii ''body'')) = Some (ascii ''hello'', ascii ''body'')
   \<and> safe_load demo_env (ascii ''hello'') = Inr (PyStr (ascii ''hello''))
   \<and> truthy (PyStr (ascii ''hello''))
   \<and> printed (process_one demo_env demo_processor (ascii ''t/a.md'')
        \<lparr>files = [(ascii ''t/a.md'', doc (ascii ''hello'') (ascii ''body''))], printed = []\<rparr>)
      = [Processing (ascii ''t/a.md''), ErrorProcessing (ascii ''t/a.md'') AttributeError]"
proof -
  let ?c = "doc (ascii ''hello'') (ascii ''body'')"
  let ?w = "\<lparr>files = [(ascii ''t/a.md'', ?c)], printed = []\<rparr> :: (path \<times> pystr) list world"
  have r: "read_text demo_env (files ?w) (ascii ''t/a.md'') = Inr ?c"
    by (simp add: demo_env_def demo_read_def)
  have m: "match_frontmatter ?c = Some (ascii ''hello'', ascii ''body'')"
    by (simp add: doc_def match_frontmatter_def close_delim_def ascii_def nl_def is_space_def)
  have l: "safe_load demo_env (ascii ''hello'') = Inr (PyStr (ascii ''hello''))"
    by (simp add: demo_env_def demo_load_def demo_yaml_def ascii_def)
  have t: "truthy (PyStr (ascii ''hello''))"
    by (simp add: ascii_def)
  have d: "\<forall>kvs. PyStr (ascii ''hello'') \<noteq> PyDict kvs"
    by simp
  from non_mapping_header_raises[OF r m l t d, of demo_processor] r m l t
  show ?thesis by simp
qed

text \<open>
  C6, as the code has it, for a file whose header is a mapping (the empty mapping of a
  file without header included). \<open>output_info\<close> is the value of \<open>output\<close>, or the
  empty mapping when there is none. When it is falsy (no \<open>output\<close>, or \<open>null\<close>, or an
  empty mapping or string), \<open>process_template\<close> prints the warning about the output
  and returns; when it is a mapping with entries and without a truthy \<open>file_name\<close>, it
  prints the warning about the file name and returns; when it is truthy and no mapping,
  \<open>output_info.get\<close> raises \<open>AttributeError\<close>, no warning is printed, and the loop of
  \<open>process_all\<close> prints the error. In all three cases the file system is as before and
  the loop goes on with the files that remain.
\<close>

theorem missing_output_or_file_name:
  assumes "read_text E (files w) f = Inr content"
    and "parse_frontmatter (safe_load E) content = (lines, Inr (PyDict kvs, body))"
    and "output_info = (case map_of kvs output_key of Some v \<Rightarrow> v | None \<Rightarrow> PyDict [])"
  shows "(\<not> truthy output_info \<longrightarrow>
            process_template E P f w
              = (Returned, w\<lparr>printed := printed w @ Processing f # lines @ [WarnNoOutput f]\<rparr>))
    \<and> (output_info = PyDict okvs \<and> okvs \<noteq> []
          \<and> \<not> truthy (case map_of okvs file_name_key of Some v \<Rightarrow> v | None \<Rightarrow> PyNone) \<longrightarrow>
            process_template E P f w
              = (Returned, w\<lparr>printed := printed w @ Processing f # lines @ [WarnNoFileName f]\<rparr>))
    \<and> (truthy output_info \<and> (\<forall>items. output_info \<noteq> PyDict items) \<longrightarrow>
            process_template E P f w
              = (Raised AttributeError, w\<lparr>printed := printed w @ Processing f # lines\<rparr>)
          \<and> process_one E P f w
              = w\<lparr>printed := printed w @ Processing f # lines @ [ErrorProcessing f AttributeError]\<rparr>)
    \<and> (\<not> truthy output_info
          \<or> output_info = PyDict okvs \<and> okvs \<noteq> []
              \<and> \<not> truthy (case map_of okvs file_name_key of Some v \<Rightarrow> v | None \<Rightarrow> PyNone)
          \<or> truthy output_info \<and> (\<forall>items. output_info \<noteq> PyDict items) \<longrightarrow>
            files (process_one E P f w) = files w
          \<and> process_files E P (f # rest) w = process_files E P rest (process_one E P f w))"
proof -
  let ?w = "w\<lparr>printed := printed w @ Processing f # lines\<rparr>"
  have a: "process_template E P f w = process_parsed E P f (PyDict kvs) body ?w"
    using assms(1,2) by (simp add: process_template_def Let_def emit_def)
  have g: "py_get (PyDict kvs) output_key (PyDict []) = Inr output_info"
    using assms(3) by simp
  have n: "process_template E P f w
        = (Returned, w\<lparr>printed := printed w @ Processing f # lines @ [WarnNoOutput f]\<rparr>)"
    if "\<not> truthy output_info"
    using that g by (simp add: a process_parsed_def emit_def)
  have s: "process_template E P f w
        = (Returned, w\<lparr>printed := printed w @ Processing f # lines @ [WarnNoFileName f]\<rparr>)"
    if "output_info = PyDict okvs" "okvs \<noteq> []"
      "\<not> truthy (case map_of okvs file_name_key of Some v \<Rightarrow> v | None \<Rightarrow> PyNone)"
    using that g by (simp add: a process_parsed_def emit_def)
  have r: "process_template E P f w = (Raised AttributeError, ?w)"
    if "truthy output_info" "\<forall>items. output_info \<noteq> PyDict items"
  proof -
    from that(2) have "py_get output_info file_name_key PyNone = Inl AttributeError"
      by (rule py_get_not_dict)
    with that(1) g show ?thesis by (simp add: a process_parsed_def)
  qed
  have o: "process_one E P f w
        = w\<lparr>printed := printed w @ Processing f # lines @ [ErrorProcessing f AttributeError]\<rparr>"
    if "truthy output_info" "\<forall>items. output_info \<noteq> PyDict items"
    using r[OF that] by (simp add: process_one_def emit_def)
  have u: "files (process_one E P f w) = files w"
    if "\<not> truthy output_info
          \<or> output_info = PyDict okvs \<and> okvs \<noteq> []
              \<and> \<not> truthy (case map_of okvs file_name_key of Some v \<Rightarrow> v | None \<Rightarrow> PyNone)
          \<or> truthy output_info \<and> (\<forall>items. output_info \<noteq> PyDict items)"
    using that
  proof (elim disjE conjE)
    assume "\<not> truthy output_info"
    from n[OF this] show ?thesis by (simp add: process_one_def)
  next
    assume "output_info = PyDict okvs" "okvs \<noteq> []"
      "\<not> truthy (case map_of okvs file_name_key of Some v \<Rightarrow> v | None \<Rightarrow> PyNone)"
    from s[OF this] show ?thesis by (simp add: process_one_def)
  next
    assume "truthy output_info" "\<forall>items. output_info \<noteq> PyDict items"
    from o[OF this] show ?thesis by simp
  qed
  show ?thesis
    using n s r o u by (intro conjI impI) simp_all
qed

theorem missing_output_or_file_name_witness:
  "process_template demo_env demo_processor (ascii ''t/p.md'')
       \<lparr>files = [(ascii ''t/p.md'', ascii ''plain text'')], printed = []\<rparr>
     = (Returned, \<lparr>files = [(ascii ''t/p.md'', ascii ''plain text'')],
                   printed = [Processing (ascii ''t/p.md''), WarnNoOutput (ascii ''t/p.md'')]\<rparr>)
   \<and> process_template demo_env demo_processor (ascii ''t/q.md'')
       \<lparr>files = [(ascii ''t/q.md'', doc (ascii ''output: {name: Bob}'') (ascii ''body''))], printed = []\<rparr>
     = (Returned, \<lparr>files = [(ascii ''t/q.md'', doc (ascii ''output: {name: Bob}'') (ascii ''body''))],
                   printed = [Processing (ascii ''t/q.md''), WarnNoFileName (ascii ''t/q.md'')]\<rparr>)
   \<and> process_one demo_env demo_processor (ascii ''t/s.md'')
       \<lparr>files = [(ascii ''t/s.md'', doc (ascii ''output: out.md'') (ascii ''body''))], printed = []\<rparr>
     = \<lparr>files = [(ascii ''t/s.md'', doc (ascii ''output: out.md'') (ascii ''body''))],
        printed = [Processing (ascii ''t/s.md''),
                   ErrorProcessing (ascii ''t/s.md'') AttributeError]\<rparr>
   \<and> process_files demo_env demo_processor [ascii ''t/p.md'']
       \<lparr>files = [(ascii ''t/p.md'', ascii ''plain text'')], printed = []\<rparr>
     = \<lparr>files = [(ascii ''t/p.md'', ascii ''plain text'')],
        printed = [Processing (ascii ''t/p.md''), WarnNoOutput (ascii ''t/p.md'')]\<rparr>"
proof -
  let ?p = "ascii ''t/p.md''" and ?q = "ascii ''t/q.md''" and ?s = "ascii ''t/s.md''"
  let ?cq = "doc (ascii ''output: {name: Bob}'') (ascii ''body'')"
  let ?cs = "doc (ascii ''output: out.md'') (ascii ''body'')"
  let ?wp = "\<lparr>files = [(?p, ascii ''plain text'')], printed = []\<rparr> :: (path \<times> pystr) list world"
  let ?wq = "\<lparr>files = [(?q, ?cq)], printed = []\<rparr> :: (path \<times> pystr) list world"
  let ?ws = "\<lparr>files = [(?s, ?cs)], printed = []\<rparr> :: (path \<times> pystr) list world"
  let ?ok = "[(ascii ''name'', PyStr (ascii ''Bob''))]"
  let ?ks = "[(output_key, PyStr (ascii ''out.md''))]"
  have rp: "read_text demo_env (files ?wp) ?p = Inr (ascii ''plain text'')"
    by (simp add: demo_env_def demo_read_def)
  have pp: "parse_frontmatter (safe_load demo_env) (ascii ''plain text'')
      = ([], Inr (PyDict [], ascii ''plain text''))"
    by (simp add: parse_frontmatter_def match_frontmatter_def ascii_def)
  have op: "PyDict [] = (case map_of ([] :: (pystr \<times> pyval) list) output_key of
      Some v \<Rightarrow> v | None \<Rightarrow> PyDict [])"
    by simp
  have rq: "read_text demo_env (files ?wq) ?q = Inr ?cq"
    by (simp add: demo_env_def demo_read_def)
  have mq: "match_frontmatter ?cq = Some (ascii ''output: {name: Bob}'', ascii ''body'')"
    by (simp add: doc_def match_frontmatter_def close_delim_def ascii_def nl_def is_space_def)
  have lq: "safe_load demo_env (ascii ''output: {name: Bob}'') = Inr (PyDict [(output_key, PyDict ?ok)])"
    by (simp add: demo_env_def demo_load_def demo_yaml_def ascii_def)
  have pq: "parse_frontmatter (safe_load demo_env) ?cq
      = ([], Inr (PyDict [(output_key, PyDict ?ok)], ascii ''body''))"
    by (simp add: parse_frontmatter_def mq lq)
  have oq: "PyDict ?ok = (case map_of [(output_key, PyDict ?ok)] output_key of
      Some v \<Rightarrow> v | None \<Rightarrow> PyDict [])"
    by simp
  have nq: "PyDict ?ok = PyDict ?ok \<and> ?ok \<noteq> []
      \<and> \<not> truthy (case map_of ?ok file_name_key of Some v \<Rightarrow> v | None \<Rightarrow> PyNone)"
    by (simp add: file_name_key_def ascii_def)
  have rs: "read_text demo_env (files ?ws) ?s = Inr ?cs"
    by (simp add: demo_env_def demo_read_def)
  have ms: "match_frontmatter ?cs = Some (ascii ''output: out.md'', ascii ''body'')"
    by (simp add: doc_def match_frontmatter_def close_delim_def ascii_def nl_def is_space_def)
  have ls: "safe_load demo_env (ascii ''output: out.md'') = Inr (PyDict ?ks)"
    by (simp add: demo_env_def demo_load_def demo_yaml_def ascii_def)
  have ps: "parse_frontmatter (safe_load demo_env) ?cs = ([], Inr (PyDict ?ks, ascii ''body''))"
    by (simp add: parse_frontmatter_def ms ls)
  have os: "PyStr (ascii ''out.md'') = (case map_of ?ks output_key of
      Some v \<Rightarrow> v | None \<Rightarrow> PyDict [])"
    by simp
  have ns: "truthy (PyStr (ascii ''out.md'')) \<and> (\<forall>items. PyStr (ascii ''out.md'') \<noteq> PyDict items)"
    by (simp add: ascii_def)
  note tp = missing_output_or_file_name[OF rp pp op, where P = demo_processor and okvs = "[]"
      and rest = "[]"]
  note tq = missing_output_or_file_name[OF rq pq oq, where P = demo_processor and okvs = ?ok
      and rest = "[]"]
  note ts = missing_output_or_file_name[OF rs ps os, where P = demo_processor and okvs = "[]"
      and rest = "[]"]
  have 1: "process_template demo_env demo_processor ?p ?wp
      = (Returned, ?wp\<lparr>printed := printed ?wp @ Processing ?p # [] @ [WarnNoOutput ?p]\<rparr>)"
    using tp[THEN conjunct1] by simp
  have 2: "process_template demo_env demo_processor ?q ?wq
      = (Returned, ?wq\<lparr>printed := printed ?wq @ Processing ?q # [] @ [WarnNoFileName ?q]\<rparr>)"
    using tq[THEN conjunct2, THEN conjunct1, THEN mp, OF nq] .
  have 3: "process_one demo_env demo_processor ?s ?ws
      = ?ws\<lparr>printed := printed ?ws @ Processing ?s # [] @ [ErrorProcessing ?s AttributeError]\<rparr>"
    using ts[THEN conjunct2, THEN conjunct2, THEN conjunct1, THEN mp, OF ns] by (rule conjunct2)
  have 4: "process_files demo_env demo_processor [?p] ?wp = process_one demo_env demo_processor ?p ?wp"
    using tp[THEN conjunct2, THEN conjunct2, THEN conjunct2] by simp
  from 1 have 5: "process_one demo_env demo_processor ?p ?wp
      = ?wp\<lparr>printed := printed ?wp @ Processing ?p # [] @ [WarnNoOutput ?p]\<rparr>"
    by (simp add: process_one_def)
  from 1 2 3 4 5 show ?thesis by simp
qed

text \<open>
  C6 as stated fails: the header \<open>output: out.md\<close> has no \<open>output\<close> mapping, and
  \<open>process_template\<close> raises instead of printing a warning and returning.
\<close>

theorem output_not_a_mapping_counterexample:
  "process_template demo_env demo_processor (ascii ''t/s.md'')
       \<lparr>files = [(ascii ''t/s.md'', doc (ascii ''output: out.md'') (ascii ''body''))], printed = []\<rparr>
     = (Raised AttributeError,
        \<lparr>files = [(ascii ''t/s.md'', doc (ascii ''output: out.md'') (ascii ''body''))],
         printed = [Processing (ascii ''t/s.md'')]\<rparr>)"
  by (simp add: process_template_def process_parsed_def parse_frontmatter_def
      match_frontmatter_def close_delim_def demo_env_def demo_read_def demo_load_def demo_yaml_def
      doc_def output_key_def Let_def emit_def ascii_def nl_def is_space_def)

lemma printed_write_output:
  "write_output E P fm body fn vars w = (r, w') \<Longrightarrow> prefix (printed w) (printed w')"
  by (auto simp: write_output_def emit_def split: sum.splits prod.splits option.splits)

lemma printed_process_parsed:
  "process_parsed E P f fm body w = (r, w') \<Longrightarrow> prefix (printed w) (printed w')"
  by (auto simp: process_parsed_def emit_def split: sum.splits if_splits dest: printed_write_output)

lemma printed_process_template:
  assumes "process_template E P f w = (r, w')"
  shows "prefix (printed w @ [Processing f]) (printed w')"
proof (cases "read_text E (files w) f")
  case (Inl e)
  with assms show ?thesis by (auto simp: process_template_def Let_def emit_def)
next
  case (Inr content)
  obtain lines res where p: "parse_frontmatter (safe_load E) content = (lines, res)"
    by (cases "parse_frontmatter (safe_load E) content")
  show ?thesis
  proof (cases res)
    case (Inl e)
    with assms Inr p show ?thesis by (auto simp: process_template_def Let_def emit_def)
  next
    case (Inr fb)
    obtain fm body where "fb = (fm, body)" by (cases fb)
    with assms \<open>read_text E (files w) f = Inr content\<close> p Inr
    have "process_parsed E P f fm body (w\<lparr>printed := printed w @ Processing f # lines\<rparr>) = (r, w')"
      by (simp add: process_template_def Let_def emit_def)
    from printed_process_parsed[OF this] show ?thesis
      by (auto simp: prefix_def)
  qed
qed

lemma printed_process_one:
  "prefix (printed w @ [Processing f]) (printed (process_one E P f w))"
proof -
  obtain r w' where t: "process_template E P f w = (r, w')"
    by (cases "process_template E P f w")
  from printed_process_template[OF t] show ?thesis
    using t by (cases r) (auto simp: process_one_def prefix_def)
qed

lemma printed_process_files:
  "prefix (printed w) (printed (process_files E P fs w))"
proof (induction fs arbitrary: w)
  case Nil
  show ?case by simp
next
  case (Cons f fs)
  have "prefix (printed w) (printed (process_one E P f w))"
    using printed_process_one[of w f E P] by (auto simp: prefix_def)
  also have "prefix \<dots> (printed (process_files E P fs (process_one E P f w)))"
    by (rule Cons.IH)
  finally show ?case by simp
qed

lemma process_files_append:
  "process_files E P (xs @ ys) w = process_files E P ys (process_files E P xs w)"
  by (induction xs arbitrary: w) simp_all

text \<open>
  C7. With no template file, \<open>process_all\<close> prints that none was found and returns.
  Otherwise it returns normally whatever the files do: each file of the list, whatever
  came before it, is passed to \<open>process_template\<close> in the world its predecessors left;
  an exception it raises is printed with the path of the file, and the files behind it
  are processed from there.
\<close>

theorem process_all_isolates_failures:
  "(glob_md E (files w) (template_dir P) = Inr [] \<longrightarrow>
      process_all E P w = (Returned, emit (NoTemplates (template_dir P)) w))
   \<and> (glob_md E (files w) (template_dir P) = Inr (pre @ f # post) \<longrightarrow>
      (\<exists>r w2.
         process_template E P f
             (process_files E P pre (emit (Found (length (pre @ f # post))) w)) = (r, w2)
         \<and> process_all E P w
             = (Returned, process_files E P post
                  (case r of Returned \<Rightarrow> w2 | Raised e \<Rightarrow> emit (ErrorProcessing f e) w2))
         \<and> Processing f \<in> set (printed (snd (process_all E P w)))
         \<and> (\<forall>e. r = Raised e \<longrightarrow> ErrorProcessing f e \<in> set (printed (snd (process_all E P w))))))"
proof (intro conjI impI)
  assume "glob_md E (files w) (template_dir P) = Inr []"
  then show "process_all E P w = (Returned, emit (NoTemplates (template_dir P)) w)"
    by (simp add: process_all_def)
next
  assume g: "glob_md E (files w) (template_dir P) = Inr (pre @ f # post)"
  let ?w1 = "process_files E P pre (emit (Found (length (pre @ f # post))) w)"
  obtain r w2 where t: "process_template E P f ?w1 = (r, w2)"
    by (cases "process_template E P f ?w1")
  let ?w3 = "case r of Returned \<Rightarrow> w2 | Raised e \<Rightarrow> emit (ErrorProcessing f e) w2"
  have one: "process_one E P f ?w1 = ?w3"
    using t by (cases r) (simp_all add: process_one_def)
  have all: "process_all E P w = (Returned, process_files E P post ?w3)"
    using g one by (simp add: process_all_def process_files_append)
  have "prefix (printed ?w1 @ [Processing f]) (printed ?w3)"
    using printed_process_one[of ?w1 f E P] one by simp
  then have "Processing f \<in> set (printed ?w3)"
    by (auto simp: prefix_def)
  moreover have post: "set (printed ?w3) \<subseteq> set (printed (process_files E P post ?w3))"
    using printed_process_files[of ?w3 E P post] by (auto simp: prefix_def)
  ultimately have p: "Processing f \<in> set (printed (snd (process_all E P w)))"
    using all by auto
  have e: "\<forall>e. r = Raised e \<longrightarrow> ErrorProcessing f e \<in> set (printed (snd (process_all E P w)))"
    using all post by auto
  from t all p e
  show "\<exists>r w2.
         process_template E P f ?w1 = (r, w2)
         \<and> process_all E P w
             = (Returned, process_files E P post
                  (case r of Returned \<Rightarrow> w2 | Raised e \<Rightarrow> emit (ErrorProcessing f e) w2))
         \<and> Processing f \<in> set (printed (snd (process_all E P w)))
         \<and> (\<forall>e. r = Raised e \<longrightarrow> ErrorProcessing f e \<in> set (printed (snd (process_all E P w))))"
    by blast
qed

theorem process_all_isolates_failures_witness:
  "process_all demo_env demo_processor \<lparr>files = [], printed = []\<rparr>
     = (Returned, \<lparr>files = [], printed = [NoTemplates (ascii ''t'')]\<rparr>)
   \<and> glob_md demo_env demo_files (ascii ''t'') = Inr ([] @ ascii ''t/a.md'' # [ascii ''t/b.md''])
   \<and> Processing (ascii ''t/a.md'')
        \<in> set (printed (snd (process_all demo_env demo_processor \<lparr>files = demo_files, printed = []\<rparr>)))
   \<and> ErrorProcessing (ascii ''t/a.md'') AttributeError
        \<in> set (printed (snd (process_all demo_env demo_processor \<lparr>files = demo_files, printed = []\<rparr>)))"
proof -
  let ?ew = "\<lparr>files = [], printed = []\<rparr> :: (path \<times> pystr) list world"
  let ?w = "\<lparr>files = demo_files, printed = []\<rparr> :: (path \<times> pystr) list world"
  let ?a = "ascii ''t/a.md''" and ?b = "ascii ''t/b.md''"
  have g0: "glob_md demo_env (files ?ew) (template_dir demo_processor) = Inr []"
    by (simp add: demo_env_def)
  have g: "glob_md demo_env (files ?w) (template_dir demo_processor) = Inr ([] @ ?a # [?b])"
    by (simp add: demo_env_def demo_processor_def demo_files_def ascii_def)
  have m: "match_frontmatter (doc (ascii ''hello'') (ascii ''body'')) = Some (ascii ''hello'', ascii ''body'')"
    by (simp add: doc_def match_frontmatter_def close_delim_def ascii_def nl_def is_space_def)
  have l: "demo_load (ascii ''hello'') = Inr (PyStr (ascii ''hello''))"
    by (simp add: demo_load_def demo_yaml_def ascii_def)
  have r: "demo_read demo_files ?a = Inr (doc (ascii ''hello'') (ascii ''body''))"
    by (simp add: demo_read_def demo_files_def)
  have ne: "ascii ''hello'' \<noteq> []"
    by (simp add: ascii_def)
  have t: "fst (process_template demo_env demo_processor ?a
             (process_files demo_env demo_processor [] (emit (Found (length ([] @ ?a # [?b]))) ?w)))
           = Raised AttributeError"
    by (simp add: process_template_def process_parsed_def parse_frontmatter_def Let_def emit_def
        demo_env_def r m l ne)
  from process_all_isolates_failures[of demo_env ?ew demo_processor] g0
  have 1: "process_all demo_env demo_processor ?ew = (Returned, emit (NoTemplates (ascii ''t'')) ?ew)"
    by (simp add: demo_processor_def)
  from process_all_isolates_failures[of demo_env ?w demo_processor "[]" ?a "[?b]"] g t
  have 2: "Processing ?a \<in> set (printed (snd (process_all demo_env demo_processor ?w)))
      \<and> ErrorProcessing ?a AttributeError \<in> set (printed (snd (process_all demo_env demo_processor ?w)))"
    by auto
  from 1 2 g show ?thesis by (simp add: emit_def demo_processor_def)
qed

section \<open>Claims about the variables and the written document\<close>

lemma map_of_add_metadata:
  "map_of (add_metadata items vars) k =
     (case map_of (rev items) k of Some v \<Rightarrow> Some v | None \<Rightarrow> map_of vars k)"
  unfolding add_metadata_def
  by (induction items arbitrary: vars) (auto simp: update_conv' split: option.splits)

lemma map_of_add_output:
  "map_of (add_output items vars) k =
     (if k = file_name_key then map_of vars k
      else case map_of (rev items) k of Some v \<Rightarrow> Some v | None \<Rightarrow> map_of vars k)"
  unfolding add_output_def
  by (induction items arbitrary: vars) (auto simp: update_conv' split: option.splits)

lemma map_of_rev_distinct:
  "distinct (map fst xs) \<Longrightarrow> map_of (rev xs) = map_of xs"
proof (induction xs)
  case Nil
  show ?case by simp
next
  case (Cons x xs)
  obtain a b where x: "x = (a, b)" by (cases x)
  from Cons.prems x have n: "map_of xs a = None"
    by (simp add: map_of_eq_None_iff)
  from Cons x have ih: "map_of (rev xs) = map_of xs" by simp
  show ?case
    using n by (auto simp: x ih fun_eq_iff map_add_def split: option.splits)
qed

text \<open>
  C1, as the code has it. For a header whose \<open>metadata\<close> and \<open>output\<close> are mappings,
  the variables bind every key of \<open>output\<close> other than \<open>file_name\<close> to the value
  \<open>output\<close> gives it, whatever \<open>metadata\<close> says for that key; and the \<open>file_name\<close> of
  \<open>output\<close> is never copied: the variables bind \<open>file_name\<close> exactly when \<open>metadata\<close>
  declares it, to the value of \<open>metadata\<close>.
\<close>

theorem output_wins_over_metadata:
  assumes "map_of kvs metadata_key = Some (PyDict mitems)"
    and "distinct (map fst mitems)"
    and "distinct (map fst oitems)"
  shows "\<exists>variables. collect_variables (PyDict kvs) (PyDict oitems) = Inr variables
    \<and> (\<forall>k v. k \<noteq> file_name_key \<and> map_of oitems k = Some v \<longrightarrow> map_of variables k = Some v)
    \<and> map_of variables file_name_key = map_of mitems file_name_key"
proof -
  let ?vs = "add_output oitems (add_metadata mitems [])"
  have c: "collect_variables (PyDict kvs) (PyDict oitems) = Inr ?vs"
    using assms(1) by (simp add: collect_variables_def)
  have o: "\<forall>k v. k \<noteq> file_name_key \<and> map_of oitems k = Some v \<longrightarrow> map_of ?vs k = Some v"
    by (simp add: map_of_add_output map_of_rev_distinct[OF assms(3)])
  have f: "map_of ?vs file_name_key = map_of mitems file_name_key"
    by (simp add: map_of_add_output map_of_add_metadata map_of_rev_distinct[OF assms(2)]
        split: option.splits)
  from c o f show ?thesis by blast
qed

theorem output_wins_over_metadata_witness:
  "map_of [(output_key, PyDict [(file_name_key, PyStr (ascii ''a_out.md'')),
                                (ascii ''name'', PyStr (ascii ''Bob''))]),
           (metadata_key, PyDict [(ascii ''name'', PyStr (ascii ''Alice''))])] metadata_key
     = Some (PyDict [(ascii ''name'', PyStr (ascii ''Alice''))])
   \<and> distinct (map fst [(ascii ''name'', PyStr (ascii ''Alice''))])
   \<and> distinct (map fst [(file_name_key, PyStr (ascii ''a_out.md'')),
                          (ascii ''name'', PyStr (ascii ''Bob''))])
   \<and> (\<exists>variables.
         collect_variables demo_header
           (PyDict [(file_name_key, PyStr (ascii ''a_out.md'')),
                    (ascii ''name'', PyStr (ascii ''Bob''))]) = Inr variables
       \<and> map_of variables (ascii ''name'') = Some (PyStr (ascii ''Bob''))
       \<and> map_of variables file_name_key = None)"
proof -
  let ?m = "[(ascii ''name'', PyStr (ascii ''Alice''))]"
  let ?ou = "[(file_name_key, PyStr (ascii ''a_out.md'')), (ascii ''name'', PyStr (ascii ''Bob''))]"
  let ?kvs = "[(output_key, PyDict ?ou), (metadata_key, PyDict ?m)]"
  have k: "map_of ?kvs metadata_key = Some (PyDict ?m)"
    by (simp add: output_key_def metadata_key_def ascii_def)
  have dm: "distinct (map fst ?m)"
    by simp
  have du: "distinct (map fst ?ou)"
    by (simp add: file_name_key_def ascii_def)
  have n: "ascii ''name'' \<noteq> file_name_key \<and> map_of ?ou (ascii ''name'') = Some (PyStr (ascii ''Bob''))
      \<and> map_of ?m file_name_key = None"
    by (simp add: file_name_key_def ascii_def)
  from output_wins_over_metadata[OF k dm du] n k dm du
  show ?thesis unfolding demo_header_def by metis
qed

text \<open>
  C1 as stated fails: with \<open>file_name\<close> declared in \<open>metadata\<close> too, the key is in the
  variables, bound to the value of \<open>metadata\<close> and not to that of \<open>output\<close>.
\<close>

theorem file_name_from_metadata_counterexample:
  "collect_variables
     (PyDict [(output_key, PyDict [(file_name_key, PyStr (ascii ''out.md''))]),
              (metadata_key, PyDict [(file_name_key, PyStr (ascii ''m.md''))])])
     (PyDict [(file_name_key, PyStr (ascii ''out.md''))])
   = Inr [(file_name_key, PyStr (ascii ''m.md''))]"
  by (simp add: collect_variables_def add_metadata_def add_output_def
      output_key_def metadata_key_def ascii_def)









section \<open>The closing delimiter needs its newline\<close>

lemma delimiter_overlap:
  assumes "us @ nl # ascii ''---'' = (nl # ascii ''---'') @ ys" and "ys \<noteq> []"
  shows "\<exists>vs. us = (nl # ascii ''---'') @ vs"
  using assms
  by (cases us; cases "tl us"; cases "tl (tl us)"; cases "tl (tl (tl us))")
     (auto simp: nl_def ascii_def)

text \<open>
  C9. A content that ends with the closing line \<open>---\<close> and no newline behind it, this
  being the first line that starts with \<open>---\<close> after the opening one (no newline
  followed by \<open>---\<close> occurs before it), has no header: the pattern does not match,
  and \<open>parse_frontmatter\<close> returns the empty mapping with the whole content as body.
\<close>

theorem unterminated_closing_delimiter:
  assumes "content = pre @ nl # ascii ''---''"
    and "\<not> sublist (nl # ascii ''---'') pre"
  shows "match_frontmatter content = None
    \<and> parse_frontmatter load content = ([], Inr (PyDict [], content))"
proof -
  have "match_frontmatter content = None"
  proof (rule ccontr)
    assume "match_frontmatter content \<noteq> None"
    then obtain h b where "match_frontmatter content = Some (h, b)" by auto
    from match_frontmatter_SomeD[OF this] obtain w1 w2 where
      c: "content = ascii ''---'' @ w1 @ nl # h @ nl # ascii ''---'' @ w2 @ nl # b" by blast
    let ?x = "ascii ''---'' @ w1 @ nl # h"
    let ?d = "nl # ascii ''---''"
    let ?y = "w2 @ nl # b"
    from c assms(1) have "pre @ ?d = ?x @ (?d @ ?y)" by simp
    then obtain us where
      "pre = ?x @ us \<and> us @ ?d = ?d @ ?y \<or> pre @ us = ?x \<and> ?d = us @ ?d @ ?y"
      unfolding append_eq_append_conv2 by blast
    then have u: "pre = ?x @ us" "us @ ?d = ?d @ ?y"
      by (auto dest: arg_cong[where f = length])
    from delimiter_overlap[OF u(2)] obtain vs where "us = ?d @ vs" by auto
    with u(1) have "pre = ?x @ ?d @ vs" by simp
    then have "sublist ?d pre" unfolding sublist_def by blast
    with assms(2) show False by simp
  qed
  then show ?thesis by (simp add: parse_frontmatter_def)
qed

theorem unterminated_closing_delimiter_witness:
  "\<not> sublist (nl # ascii ''---'') (ascii ''---'' @ [nl] @ ascii ''x: 1'')
   \<and> parse_frontmatter demo_load (ascii ''---'' @ [nl] @ ascii ''x: 1'' @ [nl] @ ascii ''---'')
     = ([], Inr (PyDict [], ascii ''---'' @ [nl] @ ascii ''x: 1'' @ [nl] @ ascii ''---''))"
proof -
  let ?pre = "ascii ''---'' @ [nl] @ ascii ''x: 1''"
  have s: "\<not> sublist (nl # ascii ''---'') ?pre"
    by (simp add: ascii_def nl_def sublist_code)
  have c: "ascii ''---'' @ [nl] @ ascii ''x: 1'' @ [nl] @ ascii ''---'' = ?pre @ nl # ascii ''---''"
    by simp
  from unterminated_closing_delimiter[OF c s, of demo_load] s show ?thesis by simp
qed

section \<open>Claims about replace_variables\<close>

lemma sub_all_no_occurrence:
  "\<not> sublist pat xs \<Longrightarrow> sub_all pat rep xs = xs"
proof (induction xs)
  case Nil
  show ?case by simp
next
  case (Cons c cs)
  from Cons.prems have "\<not> prefix pat (c # cs)" and "\<not> sublist pat cs"
    by (simp_all add: sublist_Cons_right)
  then show ?case using Cons.IH by simp
qed

lemma prefix_append_shorter:
  "prefix p (a @ b) \<Longrightarrow> length p \<le> length a \<Longrightarrow> prefix p a"
  using prefix_length_prefix[of p "a @ b" a] by simp

lemma sub_all_at_match:
  "pat \<noteq> [] \<Longrightarrow> sub_all pat rep (pat @ ys) = rep @ sub_all pat rep ys"
  by (cases pat) simp_all

lemma sub_all_first_occurrence:
  assumes "pat \<noteq> []" and "\<not> sublist pat (xs @ butlast pat)"
  shows "sub_all pat rep (xs @ pat @ ys) = xs @ rep @ sub_all pat rep ys"
  using assms(2)
proof (induction xs)
  case Nil
  show ?case using assms(1) by (simp add: sub_all_at_match)
next
  case (Cons c cs)
  have "\<not> prefix pat ((c # cs) @ pat @ ys)"
  proof
    assume p: "prefix pat ((c # cs) @ pat @ ys)"
    have eq: "(c # cs) @ pat @ ys = ((c # cs) @ butlast pat) @ (last pat # ys)"
      using assms(1) by simp
    have "prefix pat (((c # cs) @ butlast pat) @ (last pat # ys))"
      using p by (simp only: eq[symmetric])
    moreover have "length pat \<le> length ((c # cs) @ butlast pat)"
      using assms(1) by (cases pat) simp_all
    ultimately have "prefix pat ((c # cs) @ butlast pat)"
      by (rule prefix_append_shorter)
    then have "sublist pat ((c # cs) @ butlast pat)" by (rule prefix_imp_sublist)
    with Cons.prems show False by simp
  qed
  moreover from Cons.prems have "\<not> sublist pat (cs @ butlast pat)"
    by (simp add: sublist_Cons_right)
  ultimately show ?case using Cons.IH by simp
qed

lemma placeholder_not_Nil: "placeholder k \<noteq> []"
  by (simp add: placeholder_def ascii_def)

lemma backslash_placeholder: "backslash \<in> set (placeholder k) \<longleftrightarrow> backslash \<in> set k"
  by (auto simp: placeholder_def ascii_def backslash_def)

lemma sub_all_whole: "pat \<noteq> [] \<Longrightarrow> sub_all pat rep pat = rep"
  using sub_all_at_match[of pat rep "[]"] by simp

lemma replace_variables_append:
  "replace_variables repr content (vs1 @ vs2)
     = (case replace_variables repr content vs1 of
          Inl e \<Rightarrow> Inl e
        | Inr r \<Rightarrow> replace_variables repr r vs2)"
proof (induction vs1 arbitrary: content)
  case Nil
  show ?case by simp
next
  case (Cons kv vs1)
  obtain k v where "kv = (k, v)" by (cases kv)
  with Cons.IH show ?case by (simp split: sum.splits)
qed

lemma re_sub_InrD:
  "re_sub key repl content = Inr out \<Longrightarrow>
     \<exists>r. (backslash \<notin> set repl \<longrightarrow> r = repl) \<and> out = sub_all (placeholder key) r content"
  by (auto simp: re_sub_def split: if_splits sum.splits)

text \<open>
  C3, as the code has it. \<open>replace_variables\<close> is one pass per key, in the order of the
  mapping, each pass over the result of the pass before, an exception ending it:
  replacing over a mapping \<open>us\<close> followed by \<open>vs\<close> is replacing over \<open>us\<close> and then over
  \<open>vs\<close> in the result. Within the pass of a key the text put in is not scanned again,
  the scan goes on behind it: up to the first placeholder the text is copied, then comes
  the text put in (the string form of the value when it has no backslash), then the
  pass over the rest. The passes of the keys that come later do scan it: for the text
  \<open>{{a}}\<close> and the mapping of \<open>a\<close> to \<open>{{b}}\<close> and \<open>b\<close> to \<open>t\<close> the result is \<open>t\<close>, and with
  the two keys in the other order it is \<open>{{b}}\<close>. The result is a function of the text
  and the ordered mapping.
\<close>

theorem one_pass_per_key_in_order:
  "replace_variables repr content (us @ vs)
     = (case replace_variables repr content us of
          Inl e \<Rightarrow> Inl e
        | Inr r \<Rightarrow> replace_variables repr r vs)
   \<and> (backslash \<notin> set (py_str repr v)
        \<and> \<not> sublist (placeholder k) (xs @ butlast (placeholder k)) \<longrightarrow>
       replace_variables repr (xs @ placeholder k @ ys) [(k, v)]
         = Inr (xs @ py_str repr v @ sub_all (placeholder k) (py_str repr v) ys))
   \<and> (\<not> sublist (placeholder k) (xs @ butlast (placeholder k))
        \<and> replace_variables repr (xs @ placeholder k @ ys) [(k, v)] = Inr out \<longrightarrow>
       (\<exists>r. (backslash \<notin> set (py_str repr v) \<longrightarrow> r = py_str repr v)
          \<and> out = xs @ r @ sub_all (placeholder k) r ys))
   \<and> (backslash \<notin> set b \<and> backslash \<notin> set t \<longrightarrow>
       replace_variables repr (placeholder a) [(a, PyStr (placeholder b)), (b, PyStr t)] = Inr t)
   \<and> (backslash \<notin> set b \<and> backslash \<notin> set t \<and> \<not> sublist (placeholder b) (placeholder a) \<longrightarrow>
       replace_variables repr (placeholder a) [(b, PyStr t), (a, PyStr (placeholder b))]
         = Inr (placeholder b))"
proof (intro conjI impI)
  show "replace_variables repr content (us @ vs)
     = (case replace_variables repr content us of
          Inl e \<Rightarrow> Inl e
        | Inr r \<Rightarrow> replace_variables repr r vs)"
    by (rule replace_variables_append)
next
  assume "backslash \<notin> set (py_str repr v)
        \<and> \<not> sublist (placeholder k) (xs @ butlast (placeholder k))"
  then show "replace_variables repr (xs @ placeholder k @ ys) [(k, v)]
         = Inr (xs @ py_str repr v @ sub_all (placeholder k) (py_str repr v) ys)"
    by (simp add: re_sub_def sub_all_first_occurrence[OF placeholder_not_Nil])
next
  assume a: "\<not> sublist (placeholder k) (xs @ butlast (placeholder k))
        \<and> replace_variables repr (xs @ placeholder k @ ys) [(k, v)] = Inr out"
  then have "re_sub k (py_str repr v) (xs @ placeholder k @ ys) = Inr out"
    by (simp split: sum.splits)
  from re_sub_InrD[OF this] obtain r where
    r: "backslash \<notin> set (py_str repr v) \<longrightarrow> r = py_str repr v"
      "out = sub_all (placeholder k) r (xs @ placeholder k @ ys)"
    by blast
  from a r(2) have "out = xs @ r @ sub_all (placeholder k) r ys"
    by (simp add: sub_all_first_occurrence[OF placeholder_not_Nil])
  with r(1) show "\<exists>r. (backslash \<notin> set (py_str repr v) \<longrightarrow> r = py_str repr v)
          \<and> out = xs @ r @ sub_all (placeholder k) r ys"
    by (intro exI[of _ r] conjI)
next
  assume "backslash \<notin> set b \<and> backslash \<notin> set t"
  then show "replace_variables repr (placeholder a) [(a, PyStr (placeholder b)), (b, PyStr t)] = Inr t"
    by (simp add: re_sub_def backslash_placeholder sub_all_whole[OF placeholder_not_Nil])
next
  assume "backslash \<notin> set b \<and> backslash \<notin> set t \<and> \<not> sublist (placeholder b) (placeholder a)"
  then show "replace_variables repr (placeholder a) [(b, PyStr t), (a, PyStr (placeholder b))]
         = Inr (placeholder b)"
    by (simp add: re_sub_def backslash_placeholder sub_all_whole[OF placeholder_not_Nil]
        sub_all_no_occurrence)
qed

theorem one_pass_per_key_in_order_witness:
  "backslash \<notin> set (py_str (py_repr demo_env) (PyStr (ascii ''<{{a}}>'')))
   \<and> \<not> sublist (placeholder (ascii ''a'')) (ascii ''x'' @ butlast (placeholder (ascii ''a'')))
   \<and> replace_variables (py_repr demo_env) (ascii ''x{{a}}y'') [(ascii ''a'', PyStr (ascii ''<{{a}}>''))]
       = Inr (ascii ''x<{{a}}>y'')
   \<and> replace_variables (py_repr demo_env) (ascii ''x{{a}}y'') [(ascii ''a'', PyStr [backslash, 110])]
       = Inr (ascii ''x'' @ [nl] @ ascii ''y'')
   \<and> (\<exists>r. ascii ''x'' @ [nl] @ ascii ''y''
            = ascii ''x'' @ r @ sub_all (placeholder (ascii ''a'')) r (ascii ''y''))
   \<and> backslash \<notin> set (ascii ''b'') \<and> backslash \<notin> set (ascii ''X'')
   \<and> \<not> sublist (placeholder (ascii ''b'')) (placeholder (ascii ''a''))
   \<and> replace_variables (py_repr demo_env) (ascii ''{{a}}'')
        [(ascii ''a'', PyStr (ascii ''{{b}}'')), (ascii ''b'', PyStr (ascii ''X''))] = Inr (ascii ''X'')
   \<and> replace_variables (py_repr demo_env) (ascii ''{{a}}'')
        [(ascii ''b'', PyStr (ascii ''X'')), (ascii ''a'', PyStr (ascii ''{{b}}''))] = Inr (ascii ''{{b}}'')"
proof -
  have h1: "backslash \<notin> set (py_str (py_repr demo_env) (PyStr (ascii ''<{{a}}>'')))"
    by (simp add: backslash_def ascii_def)
  have h2: "\<not> sublist (placeholder (ascii ''a'')) (ascii ''x'' @ butlast (placeholder (ascii ''a'')))"
    by (simp add: placeholder_def ascii_def sublist_code)
  have h3: "backslash \<notin> set (ascii ''b'') \<and> backslash \<notin> set (ascii ''X'')"
    by (simp add: backslash_def ascii_def)
  have h4: "\<not> sublist (placeholder (ascii ''b'')) (placeholder (ascii ''a''))"
    by (simp add: placeholder_def ascii_def sublist_code)
  have h5: "replace_variables (py_repr demo_env)
        (ascii ''x'' @ placeholder (ascii ''a'') @ ascii ''y'') [(ascii ''a'', PyStr [backslash, 110])]
       = Inr (ascii ''x'' @ [nl] @ ascii ''y'')"
    by (simp add: re_sub_def placeholder_def template_escape_def escape_char_def digit_def
        backslash_def nl_def ascii_def)
  have e: "ascii ''x{{a}}y'' = ascii ''x'' @ placeholder (ascii ''a'') @ ascii ''y''"
    "ascii ''{{a}}'' = placeholder (ascii ''a'')" "ascii ''{{b}}'' = placeholder (ascii ''b'')"
    "ascii ''x'' @ ascii ''<{{a}}>'' @ ascii ''y'' = ascii ''x<{{a}}>y''"
    "sub_all (placeholder (ascii ''a'')) (ascii ''<{{a}}>'') (ascii ''y'') = ascii ''y''"
    by (simp_all add: placeholder_def ascii_def)
  note t = one_pass_per_key_in_order[where repr = "py_repr demo_env" and us = "[]" and vs = "[]"
      and content = "[]" and k = "ascii ''a''"
      and xs = "ascii ''x''" and ys = "ascii ''y''" and a = "ascii ''a''" and b = "ascii ''b''"
      and t = "ascii ''X''"]
  have c2: "replace_variables (py_repr demo_env) (ascii ''x{{a}}y'')
        [(ascii ''a'', PyStr (ascii ''<{{a}}>''))] = Inr (ascii ''x<{{a}}>y'')"
    using t[where v = "PyStr (ascii ''<{{a}}>'')" and out = "[]", THEN conjunct2, THEN conjunct1,
        THEN mp, OF conjI[OF h1 h2]]
    by (simp add: e)
  have c3: "\<exists>r. ascii ''x'' @ [nl] @ ascii ''y''
            = ascii ''x'' @ r @ sub_all (placeholder (ascii ''a'')) r (ascii ''y'')"
    using t[where v = "PyStr [backslash, 110]" and out = "ascii ''x'' @ [nl] @ ascii ''y''",
        THEN conjunct2, THEN conjunct2, THEN conjunct1, THEN mp, OF conjI[OF h2 h5]]
    by blast
  have c4: "replace_variables (py_repr demo_env) (ascii ''{{a}}'')
        [(ascii ''a'', PyStr (ascii ''{{b}}'')), (ascii ''b'', PyStr (ascii ''X''))] = Inr (ascii ''X'')"
    using t[where v = PyNone and out = "[]", THEN conjunct2, THEN conjunct2, THEN conjunct2,
        THEN conjunct1, THEN mp, OF h3]
    by (simp only: e)
  have c5: "replace_variables (py_repr demo_env) (ascii ''{{a}}'')
        [(ascii ''b'', PyStr (ascii ''X'')), (ascii ''a'', PyStr (ascii ''{{b}}''))] = Inr (ascii ''{{b}}'')"
    using t[where v = PyNone and out = "[]", THEN conjunct2, THEN conjunct2, THEN conjunct2,
        THEN conjunct2, THEN mp, OF conjI[OF conjunct1[OF h3] conjI[OF conjunct2[OF h3] h4]]]
    by (simp only: e)
  have c1: "replace_variables (py_repr demo_env) (ascii ''x{{a}}y'') [(ascii ''a'', PyStr [backslash, 110])]
       = Inr (ascii ''x'' @ [nl] @ ascii ''y'')"
    using h5 by (simp only: e)
  show ?thesis
    by (rule conjI[OF h1 conjI[OF h2 conjI[OF c2 conjI[OF c1 conjI[OF c3
          conjI[OF conjunct1[OF h3] conjI[OF conjunct2[OF h3] conjI[OF h4 conjI[OF c4 c5]]]]]]]]])
qed

text \<open>
  C3 as stated fails: the value of \<open>a\<close> holds the placeholder of \<open>b\<close>, which comes later
  in the mapping, and the placeholder inside the value is replaced.
\<close>

theorem later_key_rescans_counterexample:
  "replace_variables (py_repr demo_env) (ascii ''{{a}}'')
     [(ascii ''a'', PyStr (ascii ''{{b}}'')), (ascii ''b'', PyStr (ascii ''X''))]
   = Inr (ascii ''X'')"
  by (simp add: re_sub_def placeholder_def backslash_def ascii_def)

section \<open>What a pass replaces and what it keeps\<close>

lemma placeholder_unfold: "placeholder k = 123 # 123 # k @ [125, 125]"
  by (simp add: placeholder_def ascii_def)

lemma closing_within:
  "prefix ((k::pystr) @ [125, 125]) (zs @ 123 # 123 # rest) \<Longrightarrow> 123 \<notin> set k
     \<Longrightarrow> prefix (k @ [125, 125]) zs"
proof (induction k arbitrary: zs)
  case Nil
  then show ?case
    by (cases zs; cases "tl zs") auto
next
  case (Cons k1 k')
  show ?case
  proof (cases zs)
    case Nil
    with Cons.prems show ?thesis by simp
  next
    case (Cons z zs')
    with Cons.prems have "k1 = z" "prefix (k' @ [125, 125]) (zs' @ 123 # 123 # rest)" "123 \<notin> set k'"
      by simp_all
    with Cons.IH[of zs'] Cons show ?thesis by simp
  qed
qed

lemma match_stays_left:
  assumes "prefix (placeholder k) (xs @ placeholder u @ ys)" and "xs \<noteq> []" and "brace_free k"
  shows "prefix (placeholder k) xs"
proof (cases xs)
  case Nil
  with assms(2) show ?thesis by simp
next
  case (Cons x1 xs1)
  show ?thesis
  proof (cases xs1)
    case Nil
    with assms(1,3) Cons show ?thesis
      by (cases k) (auto simp: placeholder_unfold brace_free_def)
  next
    case (Cons x2 xs2)
    with assms(1) \<open>xs = x1 # xs1\<close> have x: "x1 = 123" "x2 = 123"
      and p: "prefix (k @ [125, 125]) (xs2 @ 123 # 123 # (u @ [125, 125] @ ys))"
      by (simp_all add: placeholder_unfold)
    from closing_within[OF p] assms(3) have "prefix (k @ [125, 125]) xs2"
      by (simp add: brace_free_def)
    with x Cons \<open>xs = x1 # xs1\<close> show ?thesis
      by (simp add: placeholder_unfold)
  qed
qed

lemma same_key:
  "prefix ((k::pystr) @ [125, 125]) (u @ 125 # 125 # ys) \<Longrightarrow> 125 \<notin> set k \<Longrightarrow> 125 \<notin> set u \<Longrightarrow> k = u"
proof (induction k arbitrary: u)
  case Nil
  then show ?case by (cases u) auto
next
  case (Cons k1 k')
  then show ?case by (cases u) auto
qed

lemma no_match_inside:
  assumes "suffix q (placeholder u)" and "q \<noteq> []"
    and "brace_free k" and "brace_free u" and "k \<noteq> u"
  shows "\<not> prefix (placeholder k) (q @ ys)"
proof
  assume p: "prefix (placeholder k) (q @ ys)"
  from assms(1) consider "q = placeholder u" | "q = 123 # u @ [125, 125]" | "suffix q (u @ [125, 125])"
    by (auto simp: placeholder_unfold suffix_Cons)
  then show False
  proof cases
    case 1
    with p have "prefix (k @ [125, 125]) (u @ 125 # 125 # ys)"
      by (simp add: placeholder_unfold)
    from same_key[OF this] assms(3,4,5) show False
      by (simp add: brace_free_def)
  next
    case 2
    with p assms(4) show False
      by (cases u) (auto simp: placeholder_unfold brace_free_def)
  next
    case 3
    from assms(2) obtain c cs where q: "q = c # cs" by (cases q) auto
    with 3 have "c \<in> set (u @ [125, 125])"
      using set_mono_suffix[of q "u @ [125, 125]"] by auto
    with assms(4) have "c \<noteq> 123" by (auto simp: brace_free_def)
    with p q show False by (simp add: placeholder_unfold)
  qed
qed

lemma sub_all_skip:
  "(\<And>q. suffix q p \<Longrightarrow> q \<noteq> [] \<Longrightarrow> \<not> prefix pat (q @ ys))
     \<Longrightarrow> sub_all pat rep (p @ ys) = p @ sub_all pat rep ys"
proof (induction p)
  case Nil
  show ?case by simp
next
  case (Cons c p)
  have "\<not> prefix pat ((c # p) @ ys)"
    by (rule Cons.prems) simp_all
  moreover have "sub_all pat rep (p @ ys) = p @ sub_all pat rep ys"
    by (rule Cons.IH) (simp add: Cons.prems suffix_ConsI)
  ultimately show ?case by simp
qed

lemma sub_all_keeps_unknown:
  assumes "brace_free k" and "brace_free u" and "k \<noteq> u"
  shows "sub_all (placeholder k) rep (xs @ placeholder u @ ys)
     = sub_all (placeholder k) rep xs @ placeholder u @ sub_all (placeholder k) rep ys"
proof (induction "placeholder k" rep xs rule: sub_all.induct)
  case (1 rep)
  have "sub_all (placeholder k) rep (placeholder u @ ys)
      = placeholder u @ sub_all (placeholder k) rep ys"
    by (rule sub_all_skip) (rule no_match_inside[OF _ _ assms])
  then show ?case by simp
next
  case (2 rep c cs)
  show ?case
  proof (cases "prefix (placeholder k) (c # cs)")
    case True
    then have l: "length (placeholder k) - 1 \<le> length cs"
      by (auto dest: prefix_length_le)
    from True have "prefix (placeholder k) ((c # cs) @ placeholder u @ ys)"
      by (rule prefix_prefix)
    with True l "2.hyps"(1) show ?thesis by simp
  next
    case False
    then have "\<not> prefix (placeholder k) ((c # cs) @ placeholder u @ ys)"
      using match_stays_left[of k "c # cs" u ys] assms(1) by auto
    with False "2.hyps"(2) show ?thesis by simp
  qed
qed

lemma sub_all_join:
  assumes "\<forall>p \<in> set (butlast ps). \<not> sublist pat (p @ butlast pat)"
    and "ps \<noteq> []" and "\<not> sublist pat (last ps)"
  shows "sub_all pat rep (str_join pat ps) = str_join rep ps"
  using assms
proof (induction pat ps rule: str_join.induct)
  case (1 sep)
  then show ?case by simp
next
  case (2 sep p)
  then show ?case by (simp add: sub_all_no_occurrence)
next
  case (3 sep p q ps)
  from "3.prems" have "\<not> sublist sep (p @ butlast sep)" by simp
  then have "sub_all sep rep (p @ sep @ str_join sep (q # ps))
      = p @ rep @ sub_all sep rep (str_join sep (q # ps))"
    using sub_all_first_occurrence[of sep p rep] "3.prems"
    by (cases "sep = []") auto
  moreover have "sub_all sep rep (str_join sep (q # ps)) = str_join rep (q # ps)"
    using "3.prems" by (intro "3.IH") auto
  ultimately show ?case by simp
qed


lemma replace_variables_plain:
  assumes "\<forall>(k, v) \<in> set variables. backslash \<notin> set (py_str repr v)"
  shows "\<exists>r. replace_variables repr body variables = Inr r"
  using assms
proof (induction variables arbitrary: body)
  case Nil
  show ?case by simp
next
  case (Cons kv variables)
  obtain k v where kv: "kv = (k, v)" by (cases kv)
  with Cons.prems have "re_sub k (py_str repr v) body = Inr (sub_all (placeholder k) (py_str repr v) body)"
    by (simp add: re_sub_def)
  moreover from Cons.prems
  have "\<exists>r. replace_variables repr (sub_all (placeholder k) (py_str repr v) body) variables = Inr r"
    by (intro Cons.IH) simp
  ultimately show ?case by (simp add: kv)
qed

lemma replace_variables_no_occurrence:
  assumes "\<forall>(k, v) \<in> set variables. backslash \<notin> set (py_str repr v)"
    and "\<forall>k \<in> fst ` set variables. \<not> sublist (placeholder k) body"
  shows "replace_variables repr body variables = Inr body"
  using assms
proof (induction variables)
  case Nil
  show ?case by simp
next
  case (Cons kv variables)
  obtain k v where kv: "kv = (k, v)" by (cases kv)
  with Cons.prems have "re_sub k (py_str repr v) body = Inr body"
    by (simp add: re_sub_def sub_all_no_occurrence)
  moreover from Cons.prems have "replace_variables repr body variables = Inr body"
    by (intro Cons.IH) simp_all
  ultimately show ?case by (simp add: kv)
qed

lemma replace_variables_keeps_unknown:
  assumes "\<forall>(k, v) \<in> set variables. backslash \<notin> set (py_str repr v)"
    and "brace_free u"
    and "\<forall>k \<in> fst ` set variables. brace_free k \<and> k \<noteq> u"
  shows "\<exists>rx ry. replace_variables repr xs variables = Inr rx
    \<and> replace_variables repr ys variables = Inr ry
    \<and> replace_variables repr (xs @ placeholder u @ ys) variables = Inr (rx @ placeholder u @ ry)"
  using assms(1,3)
proof (induction variables arbitrary: xs ys)
  case Nil
  show ?case by simp
next
  case (Cons kv variables)
  obtain k v where kv: "kv = (k, v)" by (cases kv)
  let ?r = "py_str repr v"
  from Cons.prems kv have b: "backslash \<notin> set ?r" and k: "brace_free k" "k \<noteq> u"
    by simp_all
  have s: "sub_all (placeholder k) ?r (xs @ placeholder u @ ys)
      = sub_all (placeholder k) ?r xs @ placeholder u @ sub_all (placeholder k) ?r ys"
    using k assms(2) by (intro sub_all_keeps_unknown)
  from Cons.prems
  have "\<exists>rx ry. replace_variables repr (sub_all (placeholder k) ?r xs) variables = Inr rx
    \<and> replace_variables repr (sub_all (placeholder k) ?r ys) variables = Inr ry
    \<and> replace_variables repr
         (sub_all (placeholder k) ?r xs @ placeholder u @ sub_all (placeholder k) ?r ys) variables
       = Inr (rx @ placeholder u @ ry)"
    by (intro Cons.IH) simp_all
  with b s show ?case by (simp add: kv re_sub_def)
qed

lemma leftmost_occurrence:
  assumes "pat \<noteq> []" and "sublist pat t"
  shows "\<exists>xs ys. t = xs @ pat @ ys \<and> \<not> sublist pat (xs @ butlast pat)"
  using assms(2)
proof (induction t)
  case Nil
  with assms(1) show ?case by simp
next
  case (Cons c cs)
  show ?case
  proof (cases "prefix pat (c # cs)")
    case True
    then obtain ys where "c # cs = [] @ pat @ ys" by (auto simp: prefix_def)
    moreover have "\<not> sublist pat ([] @ butlast pat)"
      using assms(1) sublist_length_le[of pat "butlast pat"] by (cases pat) auto
    ultimately show ?thesis by blast
  next
    case False
    with Cons.prems have "sublist pat cs" by (simp add: sublist_Cons_right)
    from Cons.IH[OF this] obtain xs ys where
      x: "cs = xs @ pat @ ys" "\<not> sublist pat (xs @ butlast pat)" by blast
    have "\<not> prefix pat (c # xs @ butlast pat)"
    proof
      assume "prefix pat (c # xs @ butlast pat)"
      then have "prefix pat ((c # xs @ butlast pat) @ (last pat # ys))" by (rule prefix_prefix)
      moreover have "(c # xs @ butlast pat) @ (last pat # ys) = c # cs"
        using x(1) assms(1) by simp
      ultimately show False using False by simp
    qed
    with x(2) have "\<not> sublist pat ((c # xs) @ butlast pat)"
      by (simp add: sublist_Cons_right)
    moreover from x(1) have "c # cs = (c # xs) @ pat @ ys" by simp
    ultimately show ?thesis by blast
  qed
qed

lemma split_exists:
  assumes "pat \<noteq> []"
  shows "\<exists>ps. ps \<noteq> [] \<and> t = str_join pat ps
    \<and> (\<forall>p \<in> set (butlast ps). \<not> sublist pat (p @ butlast pat))
    \<and> \<not> sublist pat (last ps)"
proof (induction t rule: length_induct)
  case (1 t)
  show ?case
  proof (cases "sublist pat t")
    case False
    then have "[t] \<noteq> [] \<and> t = str_join pat [t]
      \<and> (\<forall>p \<in> set (butlast [t]). \<not> sublist pat (p @ butlast pat))
      \<and> \<not> sublist pat (last [t])"
      by simp
    then show ?thesis by (rule exI)
  next
    case True
    from leftmost_occurrence[OF assms True] obtain xs ys where
      x: "t = xs @ pat @ ys" "\<not> sublist pat (xs @ butlast pat)" by blast
    with assms have "length ys < length t" by (cases pat) simp_all
    with "1.IH" obtain ps where
      p: "ps \<noteq> []" "ys = str_join pat ps"
        "\<forall>p \<in> set (butlast ps). \<not> sublist pat (p @ butlast pat)"
        "\<not> sublist pat (last ps)"
      by blast
    from p(1) obtain q qs where q: "ps = q # qs" by (cases ps) auto
    with x p have "xs # ps \<noteq> [] \<and> t = str_join pat (xs # ps)
      \<and> (\<forall>p \<in> set (butlast (xs # ps)). \<not> sublist pat (p @ butlast pat))
      \<and> \<not> sublist pat (last (xs # ps))"
      by simp
    then show ?thesis by (rule exI)
  qed
qed

text \<open>
  C2, as the code has it, for a mapping none of whose values has a backslash in its
  string form. \<open>replace_variables\<close> raises nothing. For every key of the mapping,
  wherever it stands, its pass takes the text the passes of the keys before it have
  left, replaces every occurrence of its placeholder by the string form of the value,
  verbatim, copies the rest, and hands the result to the passes of the keys behind it:
  the text being the parts \<open>ps\<close> joined by the placeholder, the result is the parts
  joined by the value; and every text is such parts joined. A text in which no
  placeholder of the mapping occurs is returned as it is. And an occurrence of
  \<open>{{u}}\<close>, for \<open>u\<close> not a key, is kept verbatim where it stands, \<open>u\<close> and the keys
  having no brace character.
\<close>

theorem placeholders_replaced_verbatim:
  assumes "\<forall>(k, v) \<in> set variables. backslash \<notin> set (py_str repr v)"
  shows "(\<exists>r. replace_variables repr body variables = Inr r)
    \<and> (variables = us @ (key, val) # vs
        \<and> replace_variables repr body us = Inr (str_join (placeholder key) ps)
        \<and> (\<forall>p \<in> set (butlast ps). \<not> sublist (placeholder key) (p @ butlast (placeholder key)))
        \<and> ps \<noteq> [] \<and> \<not> sublist (placeholder key) (last ps) \<longrightarrow>
        replace_variables repr body variables
          = replace_variables repr (str_join (py_str repr val) ps) vs)
    \<and> (\<forall>t. \<exists>ps. ps \<noteq> [] \<and> t = str_join (placeholder key) ps
          \<and> (\<forall>p \<in> set (butlast ps). \<not> sublist (placeholder key) (p @ butlast (placeholder key)))
          \<and> \<not> sublist (placeholder key) (last ps))
    \<and> ((\<forall>k \<in> fst ` set variables. \<not> sublist (placeholder k) body) \<longrightarrow>
        replace_variables repr body variables = Inr body)
    \<and> (brace_free u \<and> (\<forall>k \<in> fst ` set variables. brace_free k \<and> k \<noteq> u) \<longrightarrow>
        (\<exists>rx ry. replace_variables repr xs variables = Inr rx
           \<and> replace_variables repr ys variables = Inr ry
           \<and> replace_variables repr (xs @ placeholder u @ ys) variables
               = Inr (rx @ placeholder u @ ry)))"
proof (intro conjI impI allI)
  show "\<exists>r. replace_variables repr body variables = Inr r"
    using assms by (rule replace_variables_plain)
next
  assume a: "variables = us @ (key, val) # vs
        \<and> replace_variables repr body us = Inr (str_join (placeholder key) ps)
        \<and> (\<forall>p \<in> set (butlast ps). \<not> sublist (placeholder key) (p @ butlast (placeholder key)))
        \<and> ps \<noteq> [] \<and> \<not> sublist (placeholder key) (last ps)"
  with assms have b: "backslash \<notin> set (py_str repr val)" by simp
  from a have "sub_all (placeholder key) (py_str repr val) (str_join (placeholder key) ps)
      = str_join (py_str repr val) ps"
    by (intro sub_all_join) simp_all
  with b have "re_sub key (py_str repr val) (str_join (placeholder key) ps)
      = Inr (str_join (py_str repr val) ps)"
    by (simp add: re_sub_def)
  with a show "replace_variables repr body variables
          = replace_variables repr (str_join (py_str repr val) ps) vs"
    by (simp add: replace_variables_append)
next
  fix t
  show "\<exists>ps. ps \<noteq> [] \<and> t = str_join (placeholder key) ps
          \<and> (\<forall>p \<in> set (butlast ps). \<not> sublist (placeholder key) (p @ butlast (placeholder key)))
          \<and> \<not> sublist (placeholder key) (last ps)"
    using placeholder_not_Nil by (rule split_exists)
next
  assume "\<forall>k \<in> fst ` set variables. \<not> sublist (placeholder k) body"
  with assms show "replace_variables repr body variables = Inr body"
    by (rule replace_variables_no_occurrence)
next
  assume "brace_free u \<and> (\<forall>k \<in> fst ` set variables. brace_free k \<and> k \<noteq> u)"
  with assms show "\<exists>rx ry. replace_variables repr xs variables = Inr rx
           \<and> replace_variables repr ys variables = Inr ry
           \<and> replace_variables repr (xs @ placeholder u @ ys) variables
               = Inr (rx @ placeholder u @ ry)"
    by (intro replace_variables_keeps_unknown) simp_all
qed

theorem placeholders_replaced_verbatim_witness:
  "backslash \<notin> set (py_str (py_repr demo_env) (PyStr (ascii ''1'')))
   \<and> backslash \<notin> set (py_str (py_repr demo_env) (PyStr (ascii ''2'')))
   \<and> replace_variables (py_repr demo_env) (ascii ''{{a}} {{b}}'')
       [(ascii ''a'', PyStr (ascii ''1''))]
     = Inr (ascii ''1 {{b}}'')
   \<and> replace_variables (py_repr demo_env) (ascii ''{{a}} {{b}}'')
       [(ascii ''a'', PyStr (ascii ''1'')), (ascii ''b'', PyStr (ascii ''2''))]
     = Inr (ascii ''1 2'')
   \<and> replace_variables (py_repr demo_env) (ascii ''plain text'')
       [(ascii ''a'', PyStr (ascii ''1'')), (ascii ''b'', PyStr (ascii ''2''))]
     = Inr (ascii ''plain text'')
   \<and> brace_free (ascii ''who'') \<and> brace_free (ascii ''a'') \<and> brace_free (ascii ''b'')
   \<and> (\<exists>rx ry.
         replace_variables (py_repr demo_env) (ascii ''{{a}} '')
           [(ascii ''a'', PyStr (ascii ''1'')), (ascii ''b'', PyStr (ascii ''2''))] = Inr rx
       \<and> replace_variables (py_repr demo_env) (ascii ''?'')
           [(ascii ''a'', PyStr (ascii ''1'')), (ascii ''b'', PyStr (ascii ''2''))] = Inr ry
       \<and> replace_variables (py_repr demo_env)
           (ascii ''{{a}} '' @ placeholder (ascii ''who'') @ ascii ''?'')
           [(ascii ''a'', PyStr (ascii ''1'')), (ascii ''b'', PyStr (ascii ''2''))]
         = Inr (rx @ placeholder (ascii ''who'') @ ry))"
proof -
  let ?vars = "[(ascii ''a'', PyStr (ascii ''1'')), (ascii ''b'', PyStr (ascii ''2''))]"
  let ?ps = "[ascii ''1 '', []]"
  let ?body = "ascii ''{{a}} {{b}}''"
  have a1: "backslash \<notin> set (py_str (py_repr demo_env) (PyStr (ascii ''1'')))"
    by (simp add: backslash_def ascii_def)
  have a2: "backslash \<notin> set (py_str (py_repr demo_env) (PyStr (ascii ''2'')))"
    by (simp add: backslash_def ascii_def)
  from a1 a2
  have a: "\<forall>(k, v) \<in> set ?vars. backslash \<notin> set (py_str (py_repr demo_env) v)"
    by simp
  have f: "replace_variables (py_repr demo_env) ?body [(ascii ''a'', PyStr (ascii ''1''))]
      = Inr (ascii ''1 {{b}}'')"
    by (simp add: re_sub_def placeholder_def backslash_def ascii_def)
  have j: "str_join (placeholder (ascii ''b'')) ?ps = ascii ''1 {{b}}''"
    "str_join (py_str (py_repr demo_env) (PyStr (ascii ''2''))) ?ps = ascii ''1 2''"
    by (simp_all add: placeholder_def ascii_def)
  have p: "?vars = [(ascii ''a'', PyStr (ascii ''1''))] @ (ascii ''b'', PyStr (ascii ''2'')) # []
      \<and> replace_variables (py_repr demo_env) ?body [(ascii ''a'', PyStr (ascii ''1''))]
          = Inr (str_join (placeholder (ascii ''b'')) ?ps)
      \<and> (\<forall>p \<in> set (butlast ?ps).
        \<not> sublist (placeholder (ascii ''b'')) (p @ butlast (placeholder (ascii ''b''))))
      \<and> ?ps \<noteq> [] \<and> \<not> sublist (placeholder (ascii ''b'')) (last ?ps)"
    unfolding j f by (simp add: placeholder_def ascii_def sublist_code)
  have n: "\<forall>k \<in> fst ` set ?vars. \<not> sublist (placeholder k) (ascii ''plain text'')"
    by (simp add: placeholder_def ascii_def sublist_code)
  have b1: "brace_free (ascii ''who'')" and b2: "brace_free (ascii ''a'')"
    and b3: "brace_free (ascii ''b'')"
    by (simp_all add: brace_free_def ascii_def)
  have d: "brace_free (ascii ''who'')
      \<and> (\<forall>k \<in> fst ` set ?vars. brace_free k \<and> k \<noteq> ascii ''who'')"
    by (simp add: brace_free_def ascii_def)
  note t = placeholders_replaced_verbatim[OF a, where key = "ascii ''b''"
      and val = "PyStr (ascii ''2'')" and ps = ?ps and body = ?body
      and us = "[(ascii ''a'', PyStr (ascii ''1''))]" and vs = "[]"
      and u = "ascii ''who''" and xs = "ascii ''{{a}} ''" and ys = "ascii ''?''"]
  note tn = placeholders_replaced_verbatim[OF a, where key = "ascii ''b''"
      and val = "PyStr (ascii ''2'')" and ps = ?ps and body = "ascii ''plain text''"
      and us = "[(ascii ''a'', PyStr (ascii ''1''))]" and vs = "[]"
      and u = "ascii ''who''" and xs = "ascii ''{{a}} ''" and ys = "ascii ''?''"]
  have c2: "replace_variables (py_repr demo_env) ?body ?vars = Inr (ascii ''1 2'')"
    using t[THEN conjunct2, THEN conjunct1, THEN mp, OF p] by (simp only: j replace_variables.simps)
  have c3: "replace_variables (py_repr demo_env) (ascii ''plain text'') ?vars
      = Inr (ascii ''plain text'')"
    using tn[THEN conjunct2, THEN conjunct2, THEN conjunct2, THEN conjunct1, THEN mp, OF n] .
  have c4: "\<exists>rx ry.
         replace_variables (py_repr demo_env) (ascii ''{{a}} '') ?vars = Inr rx
       \<and> replace_variables (py_repr demo_env) (ascii ''?'') ?vars = Inr ry
       \<and> replace_variables (py_repr demo_env)
           (ascii ''{{a}} '' @ placeholder (ascii ''who'') @ ascii ''?'') ?vars
         = Inr (rx @ placeholder (ascii ''who'') @ ry)"
    using t[THEN conjunct2, THEN conjunct2, THEN conjunct2, THEN conjunct2, THEN mp, OF d] .
  show ?thesis
    by (rule conjI[OF a1 conjI[OF a2 conjI[OF f conjI[OF c2 conjI[OF c3
          conjI[OF b1 conjI[OF b2 conjI[OF b3 c4]]]]]]]])
qed

text \<open>
  C2 as stated fails. A value with a backslash is a template for \<open>re.sub\<close>: backslash
  and \<open>n\<close> put in a newline, and \<open>C:\Users\<close> raises. And a key may hold braces: the
  placeholder of the key \<open>a}}{{u\<close> covers \<open>{{u}}\<close>, which goes with it though \<open>u\<close> is
  no key.
\<close>

theorem replacement_is_a_template_counterexample:
  "replace_variables (py_repr demo_env) (ascii ''{{a}}'') [(ascii ''a'', PyStr [backslash, 110])]
     = Inr [nl]
   \<and> replace_variables (py_repr demo_env) (ascii ''{{a}}'')
       [(ascii ''a'', PyStr (ascii ''C:'' @ [backslash] @ ascii ''Users''))]
     = Inl TemplateError
   \<and> replace_variables (py_repr demo_env) (ascii ''{{a}}{{u}}'')
       [(ascii ''a}}{{u'', PyStr (ascii ''V''))]
     = Inr (ascii ''V'')"
  by (simp add: re_sub_def placeholder_def template_escape_def escape_char_def ascii_letter_def
      digit_def backslash_def nl_def ascii_def)

end
